theory Spec2Isabelle
  imports Main
begin

section \<open>Characters and the string helpers of the Python runtime\<close>

text \<open>
  The source text, the tokens and the table cells are Python \<open>str\<close> values. They are
  modelled as \<open>string\<close>, each \<open>char\<close> standing for the code point of the same number
  (0 to 255); a text with a code point beyond 255 is outside the model. The character tests
  below are the ones of the Python runtime on these code points: \<open>str.isspace\<close>, the
  class \<open>\d\<close> of module \<open>re\<close>, the class \<open>[a-zA-Z_]\<close> and the class \<open>\w\<close> of module
  \<open>re\<close>.
\<close>

definition isspace :: "char \<Rightarrow> bool" where
  "isspace c = (let n = (of_char c :: nat) in
     (9 \<le> n \<and> n \<le> 13) \<or> (28 \<le> n \<and> n \<le> 32) \<or> n = 133 \<or> n = 160)"

definition es_digito :: "char \<Rightarrow> bool" where
  "es_digito c = (let n = (of_char c :: nat) in 48 \<le> n \<and> n \<le> 57)"

definition es_letra_guion :: "char \<Rightarrow> bool" where
  "es_letra_guion c = (let n = (of_char c :: nat) in
     (65 \<le> n \<and> n \<le> 90) \<or> (97 \<le> n \<and> n \<le> 122) \<or> n = 95)"

definition es_palabra :: "char \<Rightarrow> bool" where
  "es_palabra c = (let n = (of_char c :: nat) in
     es_digito c \<or> es_letra_guion c \<or> n = 170 \<or> n = 178 \<or> n = 179 \<or> n = 181 \<or>
     n = 185 \<or> n = 186 \<or> (188 \<le> n \<and> n \<le> 190) \<or> (192 \<le> n \<and> n \<le> 214) \<or>
     (216 \<le> n \<and> n \<le> 246) \<or> 248 \<le> n)"

section \<open>The regular expressions of the scanner\<close>

text \<open>
  The patterns of \<open>analizador_lexico\<close> use literals, \<open>\b\<close>, the classes \<open>[a-zA-Z_]\<close>,
  \<open>[a-zA-Z0-9_]\<close>, \<open>\d\<close> and \<open>.\<close>, the greedy \<open>*\<close> and \<open>+\<close>, the lazy \<open>*?\<close>,
  concatenation and \<open>|\<close>. \<open>finales r t p\<close> lists the offsets at which an attempt to match
  \<open>r\<close> in \<open>t\<close> from offset \<open>p\<close> can end, in the order in which the backtracking matcher
  tries them; \<open>regex.match(t, p)\<close> ends at the first one.
\<close>

datatype clase = LetraGuion | AlnumGuion | Digito | Punto

fun en_clase :: "clase \<Rightarrow> char \<Rightarrow> bool" where
  "en_clase LetraGuion c = es_letra_guion c"
| "en_clase AlnumGuion c = (es_letra_guion c \<or> es_digito c)"
| "en_clase Digito c = es_digito c"
| "en_clase Punto c = (c \<noteq> CHR 0x0A)"

datatype regex =
    Lit string
  | Borde
  | Uno clase
  | Ast clase
  | Mas clase
  | AstPerezoso clase
  | Sec regex regex
  | Alt regex regex

definition borde :: "string \<Rightarrow> nat \<Rightarrow> bool" where
  "borde t p = ((0 < p \<and> p \<le> length t \<and> es_palabra (t ! (p - 1)))
                \<noteq> (p < length t \<and> es_palabra (t ! p)))"

definition tramo :: "clase \<Rightarrow> string \<Rightarrow> nat \<Rightarrow> nat" where
  "tramo c t p = length (takeWhile (en_clase c) (drop p t))"

fun finales :: "regex \<Rightarrow> string \<Rightarrow> nat \<Rightarrow> nat list" where
  "finales (Lit s) t p = (if take (length s) (drop p t) = s then [p + length s] else [])"
| "finales Borde t p = (if borde t p then [p] else [])"
| "finales (Uno c) t p = (if p < length t \<and> en_clase c (t ! p) then [p + 1] else [])"
| "finales (Ast c) t p = map (\<lambda>k. p + k) (rev [0..<Suc (tramo c t p)])"
| "finales (Mas c) t p = map (\<lambda>k. p + k) (rev [1..<Suc (tramo c t p)])"
| "finales (AstPerezoso c) t p = map (\<lambda>k. p + k) [0..<Suc (tramo c t p)]"
| "finales (Sec r1 r2) t p = concat (map (finales r2 t) (finales r1 t p))"
| "finales (Alt r1 r2) t p = finales r1 t p @ finales r2 t p"

definition re_match :: "regex \<Rightarrow> string \<Rightarrow> nat \<Rightarrow> nat option" where
  "re_match r t p = (case finales r t p of [] \<Rightarrow> None | e # _ \<Rightarrow> Some e)"

definition palabra_clave :: "string \<Rightarrow> regex" where
  "palabra_clave s = Sec Borde (Sec (Lit s) Borde)"

definition re_identificador :: regex where
  "re_identificador = Sec Borde (Sec (Uno LetraGuion) (Sec (Ast AlnumGuion) Borde))"

definition re_entero :: regex where
  "re_entero = Sec Borde (Sec (Mas Digito) Borde)"

definition re_real :: regex where
  "re_real = Sec Borde (Sec (Mas Digito) (Sec (Lit ''.'') (Sec (Mas Digito) Borde)))"

definition re_cadena :: regex where
  "re_cadena = Sec (Lit [CHR 0x22]) (Sec (AstPerezoso Punto) (Lit [CHR 0x22]))"

text \<open>The dictionary \<open>patrones\<close>, in its insertion order, which is the order of the \<open>for\<close> loop.\<close>

definition patrones :: "(string \<times> regex) list" where
  "patrones =
    [(''('', Lit ''(''),
     ('')'', Lit '')''),
     (''{'', Lit ''{''),
     (''}'', Lit ''}''),
     (''tipo'', Alt (palabra_clave ''int'') (palabra_clave ''float'')),
     (''identificador'', re_identificador),
     (''entero'', re_entero),
     (''real'', re_real),
     (''cadena'', re_cadena),
     (''opSuma'', Lit ''+''),
     (''opMul'', Lit ''*''),
     (''opRelac'', Alt (Lit ''<='') (Alt (Lit ''>='') (Alt (Lit ''<'') (Lit ''>'')))),
     (''opIgualdad'', Alt (Lit ''=='') (Lit ''!='')),
     (''opAnd'', Lit ''&&''),
     (''opOr'', Lit ''||''),
     (''opNot'', Lit ''!''),
     (''='', Lit ''=''),
     ('';'', Lit '';''),
     ('','', Lit '',''),
     (''if'', palabra_clave ''if''),
     (''else'', palabra_clave ''else''),
     (''while'', palabra_clave ''while''),
     (''return'', palabra_clave ''return'')]"

section \<open>The scanner\<close>

text \<open>
  The \<open>for\<close> loop over \<open>patrones.items()\<close> with its \<open>break\<close>: the first pattern that
  matches at the offset gives the token name and the offset \<open>match.end()\<close>.
\<close>

fun primer_patron :: "(string \<times> regex) list \<Rightarrow> string \<Rightarrow> nat \<Rightarrow> (string \<times> nat) option" where
  "primer_patron [] t p = None"
| "primer_patron ((n, r) # ps) t p =
     (case re_match r t p of
        Some e \<Rightarrow> Some (n, e)
      | None \<Rightarrow> primer_patron ps t p)"

definition token_error :: "char \<Rightarrow> string" where
  "token_error c = ''ERROR('' @ [c] @ '')''"

text \<open>
  The \<open>while\<close> loop of \<open>analizador_lexico\<close>, with \<open>posicion\<close> and \<open>tokens\<close> as
  arguments. Nothing in the loop's text bounds it, so it is a partial function: not
  returning is \<open>None\<close>.
\<close>

partial_function (option) escanear :: "string \<Rightarrow> nat \<Rightarrow> string list \<Rightarrow> string list option" where
  "escanear t posicion tokens =
     (if posicion < length t then
        (if isspace (t ! posicion) then escanear t (posicion + 1) tokens
         else
           (case primer_patron patrones t posicion of
              Some (token_tipo, fin) \<Rightarrow> escanear t fin (tokens @ [token_tipo])
            | None \<Rightarrow> escanear t (posicion + 1) (tokens @ [token_error (t ! posicion)])))
      else Some tokens)"

definition analizador_lexico :: "string \<Rightarrow> string list option" where
  "analizador_lexico codigo_fuente = escanear codigo_fuente 0 []"

text \<open>
  A pattern that consumes at least one character on every match, read off its syntax, and the
  five token names that the patterns shadowed by an earlier one would give.
\<close>

fun consume :: "regex \<Rightarrow> bool" where
  "consume (Lit s) = (s \<noteq> [])"
| "consume Borde = False"
| "consume (Uno c) = True"
| "consume (Ast c) = False"
| "consume (Mas c) = True"
| "consume (AstPerezoso c) = False"
| "consume (Sec r1 r2) = (consume r1 \<or> consume r2)"
| "consume (Alt r1 r2) = (consume r1 \<and> consume r2)"

definition inalcanzables :: "string set" where
  "inalcanzables = {''if'', ''else'', ''while'', ''return'', ''real''}"

section \<open>More of the Python runtime: strings, integers, exceptions\<close>

text \<open>
  \<open>s.startswith(pre)\<close>, \<open>s.strip()\<close>, \<open>s.strip(chars)\<close>, \<open>s.split()\<close>, \<open>s.split(sep)\<close>
  and \<open>sep.join(xs)\<close> on the strings of the driver.
\<close>

definition startswith :: "string \<Rightarrow> string \<Rightarrow> bool" where
  "startswith s pre = (take (length pre) s = pre)"

definition strip :: "string \<Rightarrow> string" where
  "strip s = rev (dropWhile isspace (rev (dropWhile isspace s)))"

definition strip_chars :: "string \<Rightarrow> string \<Rightarrow> string" where
  "strip_chars chars s =
     rev (dropWhile (\<lambda>c. c \<in> set chars) (rev (dropWhile (\<lambda>c. c \<in> set chars) s)))"

text \<open>\<open>split_aux cs w\<close> reads \<open>cs\<close> with \<open>w\<close> the word read so far.\<close>

fun split_aux :: "string \<Rightarrow> string \<Rightarrow> string list" where
  "split_aux [] w = (if w = [] then [] else [w])"
| "split_aux (c # cs) w =
     (if isspace c then (if w = [] then split_aux cs [] else w # split_aux cs [])
      else split_aux cs (w @ [c]))"

definition split :: "string \<Rightarrow> string list" where
  "split s = split_aux s []"

text \<open>
  \<open>split_sep_aux sep k cs w\<close> reads \<open>cs\<close> with \<open>w\<close> the piece read so far; \<open>k\<close> counts the
  characters of a separator just found that are still to be skipped.
\<close>

fun split_sep_aux :: "string \<Rightarrow> nat \<Rightarrow> string \<Rightarrow> string \<Rightarrow> string list" where
  "split_sep_aux sep k [] w = [w]"
| "split_sep_aux sep (Suc k) (c # cs) w = split_sep_aux sep k cs w"
| "split_sep_aux sep 0 (c # cs) w =
     (if take (length sep) (c # cs) = sep then w # split_sep_aux sep (length sep - 1) cs []
      else split_sep_aux sep 0 cs (w @ [c]))"

definition split_sep :: "string \<Rightarrow> string \<Rightarrow> string list" where
  "split_sep sep s = split_sep_aux sep 0 s []"

fun join :: "string \<Rightarrow> string list \<Rightarrow> string" where
  "join sep [] = []"
| "join sep [x] = x"
| "join sep (x # y # ys) = x @ sep @ join sep (y # ys)"

text \<open>\<open>str(n)\<close> of an integer.\<close>

fun digitos :: "nat \<Rightarrow> nat \<Rightarrow> string" where
  "digitos 0 n = []"
| "digitos (Suc f) n =
     (if n < 10 then [char_of (48 + n)]
      else digitos f (n div 10) @ [char_of (48 + n mod 10)])"

definition str_nat :: "nat \<Rightarrow> string" where
  "str_nat n = digitos (Suc n) n"

definition str_int :: "int \<Rightarrow> string" where
  "str_int i = (if i < 0 then ''-'' @ str_nat (nat (- i)) else str_nat (nat i))"

text \<open>
  \<open>int(s)\<close> of a string, base ten: the whitespace that \<open>int\<close> strips, an optional sign,
  then digits, with single underscores allowed between digits. \<open>None\<close> is \<open>ValueError\<close>.
  The bound that recent versions of Python put on the number of digits is left out.
\<close>

definition es_espacio_int :: "char \<Rightarrow> bool" where
  "es_espacio_int c = (let n = (of_char c :: nat) in
     (9 \<le> n \<and> n \<le> 13) \<or> n = 32 \<or> n = 133 \<or> n = 160)"

fun guiones_sueltos :: "string \<Rightarrow> bool" where
  "guiones_sueltos (a # b # cs) =
     (\<not> (a = CHR ''_'' \<and> b = CHR ''_'') \<and> guiones_sueltos (b # cs))"
| "guiones_sueltos cs = True"

definition digitos_validos :: "string \<Rightarrow> bool" where
  "digitos_validos s = (s \<noteq> [] \<and> es_digito (hd s) \<and> es_digito (last s) \<and>
     list_all (\<lambda>c. es_digito c \<or> c = CHR ''_'') s \<and> guiones_sueltos s)"

definition valor_decimal :: "string \<Rightarrow> int" where
  "valor_decimal s = foldl (\<lambda>a c. 10 * a + (int (of_char c) - 48)) 0 (filter es_digito s)"

definition py_int :: "string \<Rightarrow> int option" where
  "py_int s =
     (let s1 = rev (dropWhile es_espacio_int (rev (dropWhile es_espacio_int s)));
          negativo = (take 1 s1 = ''-'');
          s2 = (if take 1 s1 = ''-'' \<or> take 1 s1 = ''+'' then drop 1 s1 else s1)
      in if digitos_validos s2
         then Some (if negativo then - valor_decimal s2 else valor_decimal s2)
         else None)"

text \<open>
  The exceptions that leave \<open>analizar\<close>: the two \<open>Exception\<close>s of the source (an empty
  stack, no state on the stack), \<open>KeyError\<close> (a rule number outside \<open>reglas\<close>, a state
  outside the table's index), \<open>ValueError\<close> (\<open>int\<close> of a string that is no integer, a
  rule without exactly one \<open>::=\<close>), \<open>IndexError\<close> (\<open>pop(0)\<close> on an empty input list) and
  \<open>SystemExit\<close> (the call \<open>exit()\<close>).
\<close>

datatype excepcion = PilaVacia | SinEstado | KeyError | ValueError | IndexError | SystemExit

section \<open>The stack, the tree and the table\<close>

text \<open>
  A value on the stack is an \<open>int\<close> (a state) or an \<open>Arbol\<close> object with its fields
  \<open>valor\<close> and \<open>hijos\<close>; \<open>hijos\<close> holds whatever was popped, so its elements are
  stack values too. Class \<open>Pila\<close> is a linked list from the top: the head of the list is
  \<open>tope\<close>.
\<close>

datatype objeto = Entero int | Arbol (valor: string) (hijos: "objeto list")

definition push :: "objeto \<Rightarrow> objeto list \<Rightarrow> objeto list" where
  "push v p = v # p"

definition pop :: "objeto list \<Rightarrow> excepcion + (objeto \<times> objeto list)" where
  "pop p = (case p of [] \<Rightarrow> Inl PilaVacia | v # resto \<Rightarrow> Inr (v, resto))"

definition mostrar :: "objeto list \<Rightarrow> objeto list" where
  "mostrar p = rev p"

text \<open>
  The table is the data frame that \<open>cargar_tabla\<close> returns, which the driver reads
  through \<open>columns\<close>, \<open>loc\<close>, \<open>pd.notna\<close>, \<open>str\<close> and \<open>int\<close> only. A cell is empty
  (\<open>NaN\<close>), a string, or a number. \<open>Numero n\<close> is a number of a column that has an empty
  cell, which the data frame holds as a float: \<open>int\<close> gives \<open>n\<close> and \<open>str\<close> gives the digits
  of \<open>n\<close> followed by \<open>.0\<close> (cells with a fraction, or of sixteen digits and more, are
  outside the model). \<open>NumeroEntero n\<close> is a number of a column without empty cells, held as
  an integer: \<open>str\<close> gives the digits of \<open>n\<close>. Row and column labels are taken as unique;
  \<open>celdas\<close> lists the cells that are not empty.
\<close>

datatype celda = NaN | Texto string | Numero int | NumeroEntero int

record tabla_lr =
  columns :: "string list"
  index :: "int list"
  celdas :: "((int \<times> string) \<times> celda) list"

definition loc :: "tabla_lr \<Rightarrow> int \<Rightarrow> string \<Rightarrow> excepcion + celda" where
  "loc T estado simbolo =
     (if estado \<in> set (index T)
      then Inr (case map_of (celdas T) (estado, simbolo) of None \<Rightarrow> NaN | Some c \<Rightarrow> c)
      else Inl KeyError)"

fun notna :: "celda \<Rightarrow> bool" where
  "notna NaN = False"
| "notna (Texto s) = True"
| "notna (Numero n) = True"
| "notna (NumeroEntero n) = True"

fun str_celda :: "celda \<Rightarrow> string" where
  "str_celda NaN = ''nan''"
| "str_celda (Texto s) = s"
| "str_celda (Numero n) = str_int n @ ''.0''"
| "str_celda (NumeroEntero n) = str_int n"

fun int_celda :: "celda \<Rightarrow> int option" where
  "int_celda NaN = None"
| "int_celda (Texto s) = py_int s"
| "int_celda (Numero n) = Some n"
| "int_celda (NumeroEntero n) = Some n"

section \<open>The grammar rules\<close>

definition cuerpo_vacio :: string where
  "cuerpo_vacio = [CHR 0x5C, CHR ''e'']"

definition reglas :: "(int \<times> string) list" where
  "reglas =
    [(0, ''<Inicial> ::= <programa>''),
     (1, ''<programa> ::= <Definiciones>''),
     (2, ''<Definiciones> ::= '' @ cuerpo_vacio),
     (3, ''<Definiciones> ::= <Definicion> <Definiciones>''),
     (4, ''<Definicion> ::= <DefVar>''),
     (5, ''<Definicion> ::= <DefFunc>''),
     (6, ''<DefVar> ::= tipo identificador <ListaVar> ;''),
     (7, ''<ListaVar> ::= '' @ cuerpo_vacio),
     (8, ''<ListaVar> ::= , identificador <ListaVar>''),
     (9, ''<DefFunc> ::= tipo identificador ( <Parametros> ) <BloqFunc>''),
     (10, ''<Parametros> ::= '' @ cuerpo_vacio),
     (11, ''<Parametros> ::= tipo identificador <ListaParam>''),
     (12, ''<ListaParam> ::= '' @ cuerpo_vacio),
     (13, ''<ListaParam> ::= , tipo identificador <ListaParam>''),
     (14, ''<BloqFunc> ::= { <DefLocales> }''),
     (15, ''<DefLocales> ::= '' @ cuerpo_vacio),
     (16, ''<DefLocales> ::= <DefLocal> <DefLocales>''),
     (17, ''<DefLocal> ::= <DefVar>''),
     (18, ''<DefLocal> ::= <Sentencia>''),
     (19, ''<Sentencias> ::= '' @ cuerpo_vacio),
     (20, ''<Sentencias> ::= <Sentencia> <Sentencias>''),
     (21, ''<Sentencia> ::= identificador = <Expresion> ;''),
     (22, ''<Sentencia> ::= if ( <Expresion> ) <SentenciaBloque> <Otro>''),
     (23, ''<Sentencia> ::= while ( <Expresion> ) <Bloque>''),
     (24, ''<Sentencia> ::= return <ValorRegresa> ;''),
     (25, ''<Sentencia> ::= <LlamadaFunc> ;''),
     (26, ''<Otro> ::= '' @ cuerpo_vacio),
     (27, ''<Otro> ::= else <SentenciaBloque>''),
     (28, ''<Bloque> ::= { <Sentencias> }''),
     (29, ''<ValorRegresa> ::= '' @ cuerpo_vacio),
     (30, ''<ValorRegresa> ::= <Expresion>''),
     (31, ''<Argumentos> ::= '' @ cuerpo_vacio),
     (32, ''<Argumentos> ::= <Expresion> <ListaArgumentos>''),
     (33, ''<ListaArgumentos> ::= '' @ cuerpo_vacio),
     (34, ''<ListaArgumentos> ::= , <Expresion> <ListaArgumentos>''),
     (35, ''<Termino> ::= <LlamadaFunc>''),
     (36, ''<Termino> ::= identificador''),
     (37, ''<Termino> ::= entero''),
     (38, ''<Termino> ::= real''),
     (39, ''<Termino> ::= cadena''),
     (40, ''<LlamadaFunc> ::= identificador ( <Argumentos> )''),
     (41, ''<SentenciaBloque> ::= <Sentencia>''),
     (42, ''<SentenciaBloque> ::= <Bloque>''),
     (43, ''<Expresion> ::= ( <Expresion> )''),
     (44, ''<Expresion> ::= opSuma <Expresion>''),
     (45, ''<Expresion> ::= opNot <Expresion>''),
     (46, ''<Expresion> ::= <Expresion> opMul <Expresion>''),
     (47, ''<Expresion> ::= <Expresion> opSuma <Expresion>''),
     (48, ''<Expresion> ::= <Expresion> opRelac <Expresion>''),
     (49, ''<Expresion> ::= <Expresion> opIgualdad <Expresion>''),
     (50, ''<Expresion> ::= <Expresion> opAnd <Expresion>''),
     (51, ''<Expresion> ::= <Expresion> opOr <Expresion>''),
     (52, ''<Expresion> ::= <Termino>'')]"

definition obtener_regla :: "int \<Rightarrow> string option" where
  "obtener_regla numero_regla = map_of reglas numero_regla"

section \<open>The driver\<close>

text \<open>
  The fields of \<open>AnalizadorLR\<close> that the driver reads or writes (\<open>simbolos\<close> and
  \<open>errores_lexicos\<close> are set once and never read). \<open>generar_salida\<close> writes the trace
  and the tree to files and changes no field, so it leaves no mark here.
\<close>

record analizador =
  tabla :: tabla_lr
  pila :: "objeto list"
  flujo_entrada :: "string list"
  salida_proceso :: "(string \<times> string \<times> string) list"
  error_ocurrido :: bool
  arbol :: "objeto option"

definition AnalizadorLR :: "tabla_lr \<Rightarrow> analizador" where
  "AnalizadorLR T = \<lparr>tabla = T, pila = push (Entero 0) [], flujo_entrada = [],
     salida_proceso = [], error_ocurrido = False, arbol = None\<rparr>"

definition leer_codigo_fuente :: "analizador \<Rightarrow> string \<Rightarrow> analizador option" where
  "leer_codigo_fuente s codigo_fuente =
     (case analizador_lexico codigo_fuente of
        None \<Rightarrow> None
      | Some tokens \<Rightarrow> Some (s\<lparr>flujo_entrada := tokens @ [''$'']\<rparr>))"

fun primer_entero :: "objeto list \<Rightarrow> int option" where
  "primer_entero [] = None"
| "primer_entero (Entero e # p) = Some e"
| "primer_entero (Arbol v hs # p) = primer_entero p"

definition obtener_estado_actual :: "analizador \<Rightarrow> excepcion + int" where
  "obtener_estado_actual s =
     (case primer_entero (pila s) of None \<Rightarrow> Inl SinEstado | Some e \<Rightarrow> Inr e)"

definition obtener_accion :: "tabla_lr \<Rightarrow> int \<Rightarrow> string \<Rightarrow> excepcion + string" where
  "obtener_accion T estado token =
     (if token \<in> set (columns T) then
        (case loc T estado token of
           Inl e \<Rightarrow> Inl e
         | Inr accion \<Rightarrow> Inr (if notna accion then strip (str_celda accion) else ''error''))
      else Inr ''error'')"

text \<open>\<open>obtener_goto\<close> returns a state, or \<open>None\<close> for the string \<open>"error"\<close>.\<close>

definition obtener_goto :: "tabla_lr \<Rightarrow> int \<Rightarrow> string \<Rightarrow> excepcion + int option" where
  "obtener_goto T estado no_terminal =
     (let simbolo = strip (strip_chars ''<>'' no_terminal) in
      if simbolo \<in> set (columns T) then
        (case loc T estado simbolo of
           Inl e \<Rightarrow> Inl e
         | Inr goto \<Rightarrow>
             (if notna goto then
                (case int_celda goto of None \<Rightarrow> Inl ValueError | Some g \<Rightarrow> Inr (Some g))
              else Inr None))
      else Inr None)"

fun str_objeto :: "objeto \<Rightarrow> string" where
  "str_objeto (Entero e) = str_int e"
| "str_objeto (Arbol v hs) = v"

definition obtener_pila_como_cadena :: "analizador \<Rightarrow> string" where
  "obtener_pila_como_cadena s = join '' '' (map str_objeto (mostrar (pila s)))"

definition mensaje_error :: "int \<Rightarrow> string \<Rightarrow> string" where
  "mensaje_error estado token =
     ''Error: No hay acci'' @ [CHR 0xF3] @ ''n para el estado '' @ str_int estado
       @ '' y el token '' @ [CHR 0x27] @ token @ [CHR 0x27]"

text \<open>
  \<open>anotar s texto\<close> is the statement that appends to \<open>salida_proceso\<close> the stack as
  text, the remaining input as text and \<open>texto\<close>; \<open>analizar\<close> and \<open>manejar_error\<close> both
  hold it.
\<close>

definition anotar :: "analizador \<Rightarrow> string \<Rightarrow> analizador" where
  "anotar s texto =
     s\<lparr>salida_proceso := salida_proceso s @
          [(obtener_pila_como_cadena s, join '' '' (flujo_entrada s), texto)]\<rparr>"

definition manejar_error :: "analizador \<Rightarrow> int \<Rightarrow> string \<Rightarrow> analizador" where
  "manejar_error s estado token = (anotar s (mensaje_error estado token))\<lparr>error_ocurrido := True\<rparr>"

text \<open>
  What one call leaves behind: the loop goes on, \<open>analizar\<close> returns, or an exception
  leaves it, each with the fields as they are at that moment.
\<close>

datatype paso = Continua analizador | Retorna analizador | Lanza excepcion analizador

definition desplazar :: "analizador \<Rightarrow> string \<Rightarrow> string \<Rightarrow> paso" where
  "desplazar s accion token =
     (case py_int (drop 1 accion) of
        None \<Rightarrow> Lanza ValueError s
      | Some estado_siguiente \<Rightarrow>
          (let nodo_token = Arbol token [];
               s1 = s\<lparr>pila := push (Entero estado_siguiente) (push nodo_token (pila s))\<rparr>
           in case flujo_entrada s1 of
                [] \<Rightarrow> Lanza IndexError s1
              | t # resto \<Rightarrow> Continua (s1\<lparr>flujo_entrada := resto\<rparr>)))"

text \<open>
  The \<open>for\<close> loop of \<open>reducir\<close>: each round pops a state and then a node, and puts the
  node at the front of the list \<open>hijos\<close>. An empty stack raises with the stack empty.
\<close>

fun desapilar :: "nat \<Rightarrow> objeto list \<Rightarrow> objeto list \<Rightarrow> excepcion + (objeto list \<times> objeto list)" where
  "desapilar 0 p hijos_nodo = Inr (hijos_nodo, p)"
| "desapilar (Suc n) p hijos_nodo =
     (case pop p of
        Inl e \<Rightarrow> Inl e
      | Inr (estado, p1) \<Rightarrow>
          (case pop p1 of
             Inl e \<Rightarrow> Inl e
           | Inr (nodo_hijo, p2) \<Rightarrow> desapilar n p2 (nodo_hijo # hijos_nodo)))"

definition reducir :: "analizador \<Rightarrow> string \<Rightarrow> paso" where
  "reducir s accion =
     (case py_int (drop 1 accion) of
        None \<Rightarrow> Lanza ValueError s
      | Some numero_regla \<Rightarrow>
          if numero_regla = 0 then Lanza SystemExit s
          else
            (case obtener_regla numero_regla of
               None \<Rightarrow> Lanza KeyError s
             | Some regla \<Rightarrow>
                 (case split_sep '' ::= '' regla of
                    [cabecera, cuerpo] \<Rightarrow>
                      (let tokens_cuerpo = split (strip cuerpo) in
                       case (if strip cuerpo \<noteq> cuerpo_vacio
                             then desapilar (length tokens_cuerpo) (pila s) []
                             else Inr ([], pila s)) of
                         Inl e \<Rightarrow> Lanza e (s\<lparr>pila := []\<rparr>)
                       | Inr (hijos_nodo, p1) \<Rightarrow>
                           (let nodo_actual = Arbol cabecera hijos_nodo;
                                s1 = s\<lparr>pila := p1\<rparr>
                            in case obtener_estado_actual s1 of
                                 Inl e \<Rightarrow> Lanza e s1
                               | Inr estado_anterior \<Rightarrow>
                                   (let s2 = s1\<lparr>pila := push nodo_actual p1\<rparr>
                                    in case obtener_goto (tabla s2) estado_anterior cabecera of
                                         Inl e \<Rightarrow> Lanza e s2
                                       | Inr None \<Rightarrow>
                                           Continua (manejar_error s2 estado_anterior cabecera)
                                       | Inr (Some estado_siguiente) \<Rightarrow>
                                           (let s3 = s2\<lparr>pila := push (Entero estado_siguiente) (pila s2)\<rparr>
                                            in Continua
                                                 (if arbol s3 = None \<and> cabecera = ''<programa>''
                                                  then s3\<lparr>arbol := Some nodo_actual\<rparr>
                                                  else s3)))))
                  | _ \<Rightarrow> Lanza ValueError s)))"

text \<open>
  One round of the \<open>while True\<close> loop of \<open>analizar\<close>; \<open>token_actual\<close> is the
  conditional expression that reads the lookahead.
\<close>

definition token_actual :: "analizador \<Rightarrow> string" where
  "token_actual s = (case flujo_entrada s of [] \<Rightarrow> ''$'' | t # resto \<Rightarrow> t)"

definition iteracion :: "analizador \<Rightarrow> paso" where
  "iteracion s =
     (if error_ocurrido s then Retorna s
      else
        (case obtener_estado_actual s of
           Inl e \<Rightarrow> Lanza e s
         | Inr estado_actual \<Rightarrow>
             (let token = token_actual s
              in case obtener_accion (tabla s) estado_actual token of
                   Inl e \<Rightarrow> Lanza e s
                 | Inr accion \<Rightarrow>
                     (let s1 = anotar s accion
                      in if startswith accion ''d'' then desplazar s1 accion token
                         else if startswith accion ''r'' then reducir s1 accion
                         else if accion = ''accept'' then Retorna s1
                         else Retorna (manejar_error s1 estado_actual token)))))"

text \<open>
  \<open>analizar\<close> ends by returning or by an exception; a table can also keep it reducing
  for ever, so it is a partial function.
\<close>

datatype fin = Devuelve analizador | Aborta excepcion analizador

partial_function (option) analizar :: "analizador \<Rightarrow> fin option" where
  "analizar s =
     (case iteracion s of
        Continua s1 \<Rightarrow> analizar s1
      | Retorna s1 \<Rightarrow> Some (Devuelve s1)
      | Lanza e s1 \<Rightarrow> Some (Aborta e s1))"

section \<open>Reading a tree and a stack\<close>

text \<open>
  The leaves of a tree, left to right: the labels of its nodes without children. The
  left-hand sides of the rules, and the leaves whose label is none of them: a node that a
  shift made from a token, as long as no token is named like a nonterminal.
\<close>

fun hojas :: "objeto \<Rightarrow> string list" where
  "hojas (Entero e) = []"
| "hojas (Arbol v hs) = (if hs = [] then [v] else concat (map hojas hs))"

definition cabeceras :: "string list" where
  "cabeceras = map (\<lambda>(numero, regla). hd (split_sep '' ::= '' regla)) reglas"

definition hojas_token :: "objeto \<Rightarrow> string list" where
  "hojas_token t = filter (\<lambda>v. v \<notin> set cabeceras) (hojas t)"

text \<open>
  The labels of all the nodes of a tree, and all the subtrees of a tree, the tree itself first.
\<close>

fun etiquetas :: "objeto \<Rightarrow> string list" where
  "etiquetas (Entero e) = []"
| "etiquetas (Arbol v hs) = v # concat (map etiquetas hs)"

fun subarboles :: "objeto \<Rightarrow> objeto list" where
  "subarboles (Entero e) = []"
| "subarboles (Arbol v hs) = Arbol v hs # concat (map subarboles hs)"

text \<open>
  What line 296 and 297 of \<open>reducir\<close> keep true of the field \<open>arbol\<close>: while it is
  \<open>None\<close> no node on the stack, at any depth, is labelled \<open><programa>\<close>; once set, it is
  labelled \<open><programa>\<close> and is a subtree of an element of the stack.
\<close>

definition registro :: "analizador \<Rightarrow> bool" where
  "registro s =
     (case arbol s of
        None \<Rightarrow> ''<programa>'' \<notin> set (concat (map etiquetas (pila s)))
      | Some r \<Rightarrow> valor r = ''<programa>'' \<and> r \<in> set (concat (map subarboles (pila s))))"

text \<open>The token leaves of the nodes on a stack, from the base of the stack to its top.\<close>

definition frente :: "objeto list \<Rightarrow> string list" where
  "frente p = concat (map hojas_token (rev p))"

text \<open>The stack alternates state, node, state, ..., from a state at the bottom to a state on top.\<close>

fun alterna :: "objeto list \<Rightarrow> bool" where
  "alterna [Entero e] = True"
| "alterna (Entero e # Arbol v hs # p) = alterna p"
| "alterna p = False"

text \<open>
  Every second element of a list, and a stack that is one node on top of an alternating stack.
\<close>

fun segundos :: "'a list \<Rightarrow> 'a list" where
  "segundos (a # b # xs) = b # segundos xs"
| "segundos xs = []"

fun nodo_sobre_alterna :: "objeto list \<Rightarrow> bool" where
  "nodo_sobre_alterna (Arbol v hs # p) = alterna p"
| "nodo_sobre_alterna p = False"

text \<open>The states that the loop of \<open>analizar\<close> goes through when it starts in \<open>s0\<close>.\<close>

inductive alcanza :: "analizador \<Rightarrow> analizador \<Rightarrow> bool" for s0 :: analizador where
  alcanza_inicio: "alcanza s0 s0"
| alcanza_sigue: "alcanza s0 s \<Longrightarrow> iteracion s = Continua s1 \<Longrightarrow> alcanza s0 s1"
| alcanza_retorna: "alcanza s0 s \<Longrightarrow> iteracion s = Retorna s1 \<Longrightarrow> alcanza s0 s1"

text \<open>
  The part of \<open>reducir\<close> that follows the pops, with the left-hand side, the children
  and the stack that the pops left: the state exposed, the push of the node, the goto
  lookup and what follows it.
\<close>

definition tras_reducir :: "analizador \<Rightarrow> string \<Rightarrow> objeto list \<Rightarrow> objeto list \<Rightarrow> paso" where
  "tras_reducir s cabecera hs p1 =
     (case obtener_estado_actual (s\<lparr>pila := p1\<rparr>) of
        Inl e \<Rightarrow> Lanza e (s\<lparr>pila := p1\<rparr>)
      | Inr estado_anterior \<Rightarrow>
          (case obtener_goto (tabla s) estado_anterior cabecera of
             Inl e \<Rightarrow> Lanza e (s\<lparr>pila := Arbol cabecera hs # p1\<rparr>)
           | Inr None \<Rightarrow>
               Continua (manejar_error (s\<lparr>pila := Arbol cabecera hs # p1\<rparr>) estado_anterior cabecera)
           | Inr (Some g) \<Rightarrow>
               Continua (if arbol s = None \<and> cabecera = ''<programa>''
                         then s\<lparr>pila := Entero g # Arbol cabecera hs # p1,
                                arbol := Some (Arbol cabecera hs)\<rparr>
                         else s\<lparr>pila := Entero g # Arbol cabecera hs # p1\<rparr>)))"

declare escanear.simps [code]

declare analizar.simps [code]

section \<open>Tables for concrete runs\<close>

text \<open>
  A table for the rules 1 to 4, 6 and 7, built by hand from their items: it accepts the
  variable definitions without a comma. Then the same first row without its goto entry, a
  table whose only action is \<open>r0\<close>, and a table that accepts at once.
\<close>

definition tabla_defvar :: tabla_lr where
  "tabla_defvar =
    \<lparr>columns = [''tipo'', ''identificador'', '';'', ''$'', ''programa'', ''Definiciones'',
                ''Definicion'', ''DefVar'', ''ListaVar''],
     index = [0, 1, 2, 3, 4, 5, 6, 7, 8, 9],
     celdas =
       [((0, ''tipo''), Texto ''d3''), ((0, ''$''), Texto ''r2''), ((0, ''programa''), Numero 1),
        ((0, ''Definiciones''), Numero 2), ((0, ''Definicion''), Numero 4),
        ((0, ''DefVar''), Numero 5),
        ((1, ''$''), Texto ''accept''),
        ((2, ''$''), Texto ''r1''),
        ((3, ''identificador''), Texto ''d6''),
        ((4, ''tipo''), Texto ''d3''), ((4, ''$''), Texto ''r2''),
        ((4, ''Definiciones''), Numero 7), ((4, ''Definicion''), Numero 4),
        ((4, ''DefVar''), Numero 5),
        ((5, ''tipo''), Texto ''r4''), ((5, ''$''), Texto ''r4''),
        ((6, '';''), Texto ''r7''), ((6, ''ListaVar''), Numero 8),
        ((7, ''$''), Texto ''r3''),
        ((8, '';''), Texto ''d9''),
        ((9, ''tipo''), Texto ''r6''), ((9, ''$''), Texto ''r6'')]\<rparr>"

text \<open>
  A table that no grammar gives: on \<open>;\<close> it reduces to \<open><programa>\<close> and accepts with the
  input unread; on \<open>identificador\<close> it reduces to \<open><programa>\<close>, shifts, and reduces over
  that node to \<open><programa>\<close> again.
\<close>

definition tabla_errada :: tabla_lr where
  "tabla_errada =
    \<lparr>columns = [''identificador'', '';'', ''$'', ''programa'', ''Definiciones''],
     index = [0, 1, 2, 3],
     celdas =
       [((0, ''identificador''), Texto ''r2''), ((0, '';''), Texto ''r2''),
        ((0, ''programa''), Numero 2), ((0, ''Definiciones''), Numero 1),
        ((1, ''identificador''), Texto ''r1''), ((1, '';''), Texto ''r1''),
        ((1, ''$''), Texto ''r1''),
        ((2, ''identificador''), Texto ''d3''), ((2, '';''), Texto ''accept''),
        ((2, ''$''), Texto ''accept''),
        ((3, ''$''), Texto ''r3'')]\<rparr>"

definition tabla_sin_goto :: tabla_lr where
  "tabla_sin_goto =
    \<lparr>columns = [''$'', ''Definiciones''], index = [0], celdas = [((0, ''$''), Texto ''r2'')]\<rparr>"

definition tabla_regla_cero :: tabla_lr where
  "tabla_regla_cero =
    \<lparr>columns = [''$''], index = [0], celdas = [((0, ''$''), Texto ''r0'')]\<rparr>"

definition tabla_acepta :: tabla_lr where
  "tabla_acepta =
    \<lparr>columns = [''$''], index = [0], celdas = [((0, ''$''), Texto ''accept'')]\<rparr>"

text \<open>
  The states in which these runs start and end. \<open>arbol_defvar\<close> is the tree of the
  tokens \<open>tipo identificador ;\<close> and \<open>arbol_vacio\<close> the tree of no token at all.
\<close>

definition con_entrada :: "tabla_lr \<Rightarrow> string list \<Rightarrow> analizador" where
  "con_entrada T entrada = (AnalizadorLR T)\<lparr>flujo_entrada := entrada\<rparr>"

definition arbol_defvar :: objeto where
  "arbol_defvar =
     Arbol ''<programa>''
      [Arbol ''<Definiciones>''
        [Arbol ''<Definicion>''
          [Arbol ''<DefVar>''
            [Arbol ''tipo'' [], Arbol ''identificador'' [], Arbol ''<ListaVar>'' [],
             Arbol '';'' []]],
         Arbol ''<Definiciones>'' []]]"

definition estado_defvar :: analizador where
  "estado_defvar =
    \<lparr>tabla = tabla_defvar,
     pila = [Entero 1, arbol_defvar, Entero 0],
     flujo_entrada = [''$''],
     salida_proceso =
       [(''0'', ''tipo identificador ; $'', ''d3''),
        (''0 tipo 3'', ''identificador ; $'', ''d6''),
        (''0 tipo 3 identificador 6'', ''; $'', ''r7''),
        (''0 tipo 3 identificador 6 <ListaVar> 8'', ''; $'', ''d9''),
        (''0 tipo 3 identificador 6 <ListaVar> 8 ; 9'', ''$'', ''r6''),
        (''0 <DefVar> 5'', ''$'', ''r4''),
        (''0 <Definicion> 4'', ''$'', ''r2''),
        (''0 <Definicion> 4 <Definiciones> 7'', ''$'', ''r3''),
        (''0 <Definiciones> 2'', ''$'', ''r1''),
        (''0 <programa> 1'', ''$'', ''accept'')],
     error_ocurrido = False,
     arbol = Some arbol_defvar\<rparr>"

definition arbol_vacio :: objeto where
  "arbol_vacio = Arbol ''<programa>'' [Arbol ''<Definiciones>'' []]"

definition estado_vacio :: analizador where
  "estado_vacio =
    \<lparr>tabla = tabla_defvar,
     pila = [Entero 1, arbol_vacio, Entero 0],
     flujo_entrada = [''$''],
     salida_proceso =
       [(''0'', ''$'', ''r2''),
        (''0 <Definiciones> 2'', ''$'', ''r1''),
        (''0 <programa> 1'', ''$'', ''accept'')],
     error_ocurrido = False,
     arbol = Some arbol_vacio\<rparr>"

definition estado_goto_fallido :: analizador where
  "estado_goto_fallido =
    \<lparr>tabla = tabla_sin_goto,
     pila = [Arbol ''<Definiciones>'' [], Entero 0],
     flujo_entrada = [''$''],
     salida_proceso =
       [(''0'', ''$'', ''r2''),
        (''0 <Definiciones>'', ''$'', mensaje_error 0 ''<Definiciones>'')],
     error_ocurrido = True,
     arbol = None\<rparr>"

definition estado_sin_accion :: analizador where
  "estado_sin_accion =
    \<lparr>tabla = tabla_sin_goto,
     pila = [Entero 0],
     flujo_entrada = [''identificador'', ''$''],
     salida_proceso =
       [(''0'', ''identificador $'', ''error''),
        (''0'', ''identificador $'', mensaje_error 0 ''identificador'')],
     error_ocurrido = True,
     arbol = None\<rparr>"

definition estado_regla_cero :: analizador where
  "estado_regla_cero =
    \<lparr>tabla = tabla_regla_cero,
     pila = [Entero 0],
     flujo_entrada = [''$''],
     salida_proceso = [(''0'', ''$'', ''r0'')],
     error_ocurrido = False,
     arbol = None\<rparr>"

definition estado_antes_r6 :: analizador where
  "estado_antes_r6 =
    \<lparr>tabla = tabla_defvar,
     pila = [Entero 9, Arbol '';'' [], Entero 8, Arbol ''<ListaVar>'' [], Entero 6,
             Arbol ''identificador'' [], Entero 3, Arbol ''tipo'' [], Entero 0],
     flujo_entrada = [''$''],
     salida_proceso = [],
     error_ocurrido = False,
     arbol = None\<rparr>"

definition estado_tras_r6 :: analizador where
  "estado_tras_r6 =
    estado_antes_r6\<lparr>pila :=
      [Entero 5,
       Arbol ''<DefVar>''
        [Arbol ''tipo'' [], Arbol ''identificador'' [], Arbol ''<ListaVar>'' [], Arbol '';'' []],
       Entero 0]\<rparr>"

definition estado_sin_leer :: analizador where
  "estado_sin_leer =
    \<lparr>tabla = tabla_errada,
     pila = [Entero 2, arbol_vacio, Entero 0],
     flujo_entrada = ['';'', ''$''],
     salida_proceso =
       [(''0'', ''; $'', ''r2''),
        (''0 <Definiciones> 1'', ''; $'', ''r1''),
        (''0 <programa> 2'', ''; $'', ''accept'')],
     error_ocurrido = False,
     arbol = Some arbol_vacio\<rparr>"

definition arbol_anidado :: objeto where
  "arbol_anidado =
     Arbol ''<programa>'' [Arbol ''<Definiciones>'' [arbol_vacio, Arbol ''identificador'' []]]"

definition estado_anidado :: analizador where
  "estado_anidado =
    \<lparr>tabla = tabla_errada,
     pila = [Entero 2, arbol_anidado, Entero 0],
     flujo_entrada = [''$''],
     salida_proceso =
       [(''0'', ''identificador $'', ''r2''),
        (''0 <Definiciones> 1'', ''identificador $'', ''r1''),
        (''0 <programa> 2'', ''identificador $'', ''d3''),
        (''0 <programa> 2 identificador 3'', ''$'', ''r3''),
        (''0 <Definiciones> 1'', ''$'', ''r1''),
        (''0 <programa> 2'', ''$'', ''accept'')],
     error_ocurrido = False,
     arbol = Some arbol_vacio\<rparr>"

section \<open>The scanner: every match advances, and the scan returns\<close>

lemma tramo_le: "p + tramo c t p \<le> max p (length t)"
proof -
  have "tramo c t p \<le> length (drop p t)"
    unfolding tramo_def by (rule length_takeWhile_le)
  then show ?thesis by simp
qed

lemma tramo_clase:
  assumes "k < tramo c t p"
  shows "p + k < length t \<and> en_clase c (t ! (p + k))"
proof -
  from assms have k: "k < length (takeWhile (en_clase c) (drop p t))"
    by (simp add: tramo_def)
  have le: "length (takeWhile (en_clase c) (drop p t)) \<le> length (drop p t)"
    by (rule length_takeWhile_le)
  from k le have lt: "p + k < length t" by simp
  from k have "takeWhile (en_clase c) (drop p t) ! k \<in> set (takeWhile (en_clase c) (drop p t))"
    by (rule nth_mem)
  then have "en_clase c (takeWhile (en_clase c) (drop p t) ! k)"
    by (rule set_takeWhileD[THEN conjunct2])
  with k have "en_clase c (drop p t ! k)" by (simp add: takeWhile_nth)
  with lt show ?thesis by simp
qed

lemma finales_cotas:
  "e \<in> set (finales r t p) \<Longrightarrow> p \<le> e \<and> (p \<le> length t \<longrightarrow> e \<le> length t)"
proof (induction r arbitrary: e p)
  case (Lit s)
  then have eq: "take (length s) (drop p t) = s" and e: "e = p + length s"
    by (auto split: if_splits)
  from eq have "length (take (length s) (drop p t)) = length s" by simp
  then have "length s \<le> length t - p" by simp
  with e show ?case by auto
next
  case (Ast c)
  then have "p \<le> e \<and> e \<le> p + tramo c t p" by auto
  with tramo_le[of p c t] show ?case by auto
next
  case (Mas c)
  then have "p \<le> e \<and> e \<le> p + tramo c t p" by auto
  with tramo_le[of p c t] show ?case by auto
next
  case (AstPerezoso c)
  then have "p \<le> e \<and> e \<le> p + tramo c t p" by auto
  with tramo_le[of p c t] show ?case by auto
next
  case (Sec r1 r2)
  then obtain q where q: "q \<in> set (finales r1 t p)" and e: "e \<in> set (finales r2 t q)" by auto
  from Sec.IH(1)[OF q] Sec.IH(2)[OF e] show ?case by auto
next
  case (Alt r1 r2)
  then show ?case by auto
qed (auto split: if_splits)

lemma finales_avanza:
  "consume r \<Longrightarrow> e \<in> set (finales r t p) \<Longrightarrow> p < e"
proof (induction r arbitrary: e p)
  case (Sec r1 r2)
  then obtain q where q: "q \<in> set (finales r1 t p)" and e: "e \<in> set (finales r2 t q)" by auto
  from finales_cotas[OF q] finales_cotas[OF e] have le: "p \<le> q" "q \<le> e" by auto
  from Sec.prems(1) have "consume r1 \<or> consume r2" by simp
  then show ?case
  proof
    assume "consume r1"
    from Sec.IH(1)[OF this q] le show ?thesis by simp
  next
    assume "consume r2"
    from Sec.IH(2)[OF this e] le show ?thesis by simp
  qed
next
  case (Alt r1 r2)
  then show ?case by auto
qed (auto split: if_splits)

lemma re_match_Some: "re_match r t p = Some e \<Longrightarrow> e \<in> set (finales r t p)"
  by (auto simp: re_match_def split: list.splits)

lemma patrones_consumen_todos: "list_all (\<lambda>(n, r). consume r) patrones"
  by (simp add: patrones_def palabra_clave_def re_identificador_def re_entero_def
      re_real_def re_cadena_def)

lemma patrones_consumen: "(n, r) \<in> set patrones \<Longrightarrow> consume r"
  using patrones_consumen_todos by (auto simp: list_all_iff)

lemma primer_patron_Some:
  "primer_patron ps t p = Some (n, e) \<Longrightarrow>
     \<exists>antes r despues. ps = antes @ (n, r) # despues \<and>
       (\<forall>x \<in> set antes. re_match (snd x) t p = None) \<and> re_match r t p = Some e"
proof (induction ps)
  case Nil
  then show ?case by simp
next
  case (Cons a ps)
  obtain n0 r0 where a: "a = (n0, r0)" by (cases a)
  show ?case
  proof (cases "re_match r0 t p")
    case None
    with Cons.prems a have "primer_patron ps t p = Some (n, e)" by simp
    from Cons.IH[OF this] obtain antes r despues where
      h: "ps = antes @ (n, r) # despues" "\<forall>x \<in> set antes. re_match (snd x) t p = None"
         "re_match r t p = Some e" by blast
    show ?thesis
    proof (intro exI conjI)
      show "a # ps = (a # antes) @ (n, r) # despues" using h(1) by simp
      show "\<forall>x \<in> set (a # antes). re_match (snd x) t p = None" using h(2) None a by simp
      show "re_match r t p = Some e" by (rule h(3))
    qed
  next
    case (Some e0)
    with Cons.prems a have ne: "n = n0" "e = e0" by simp_all
    show ?thesis
    proof (intro exI conjI)
      show "a # ps = [] @ (n, r0) # ps" using a ne by simp
      show "\<forall>x \<in> set []. re_match (snd x) t p = None" by simp
      show "re_match r0 t p = Some e" using Some ne by simp
    qed
  qed
qed

lemma primer_patron_None:
  "primer_patron ps t p = None \<longleftrightarrow> (\<forall>x \<in> set ps. re_match (snd x) t p = None)"
  by (induction ps) (auto split: option.splits)

lemma primer_patron_primero:
  "\<forall>x \<in> set antes. re_match (snd x) t p = None \<Longrightarrow> re_match r t p = Some e \<Longrightarrow>
     primer_patron (antes @ (n, r) # despues) t p = Some (n, e)"
  by (induction antes) auto

lemma primer_patron_avanza:
  assumes "primer_patron patrones t p = Some (n, e)"
  shows "p < e \<and> (p \<le> length t \<longrightarrow> e \<le> length t)"
proof -
  from primer_patron_Some[OF assms] obtain antes r despues where
    h: "patrones = antes @ (n, r) # despues" "re_match r t p = Some e" by blast
  have "(n, r) \<in> set (antes @ (n, r) # despues)" by simp
  then have "(n, r) \<in> set patrones" by (simp only: h(1))
  then have c: "consume r" by (rule patrones_consumen)
  from h(2) have e: "e \<in> set (finales r t p)" by (rule re_match_Some)
  from finales_avanza[OF c e] finales_cotas[OF e] show ?thesis by simp
qed

lemma escanear_total:
  "\<exists>resto. escanear t p toks = Some (toks @ resto) \<and> length resto \<le> length t - p"
proof (induction "length t - p" arbitrary: p toks rule: less_induct)
  case less
  show ?case
  proof (cases "p < length t")
    case False
    then show ?thesis by (subst escanear.simps) simp
  next
    case lt: True
    show ?thesis
    proof (cases "isspace (t ! p)")
      case True
      from lt have "length t - (p + 1) < length t - p" by simp
      from less[OF this, of toks] obtain resto where
        r: "escanear t (p + 1) toks = Some (toks @ resto)" "length resto \<le> length t - (p + 1)"
        by blast
      from lt True r(1) have "escanear t p toks = Some (toks @ resto)"
        by (subst escanear.simps) simp
      with r(2) show ?thesis by auto
    next
      case nsp: False
      show ?thesis
      proof (cases "primer_patron patrones t p")
        case None
        from lt have "length t - (p + 1) < length t - p" by simp
        from less[OF this, of "toks @ [token_error (t ! p)]"] obtain resto where
          r: "escanear t (p + 1) (toks @ [token_error (t ! p)])
                = Some ((toks @ [token_error (t ! p)]) @ resto)"
             "length resto \<le> length t - (p + 1)"
          by blast
        from lt nsp None r(1) have
          "escanear t p toks = Some (toks @ (token_error (t ! p) # resto))"
          by (subst escanear.simps) simp
        moreover from r(2) lt have "length (token_error (t ! p) # resto) \<le> length t - p"
          by simp
        ultimately show ?thesis by blast
      next
        case (Some ne)
        obtain n e where ne: "ne = (n, e)" by (cases ne)
        from primer_patron_avanza[of t p n e] Some ne lt
        have pe: "p < e" "e \<le> length t" by auto
        then have "length t - e < length t - p" using lt by simp
        from less[OF this, of "toks @ [n]"] obtain resto where
          r: "escanear t e (toks @ [n]) = Some ((toks @ [n]) @ resto)"
             "length resto \<le> length t - e"
          by blast
        from lt nsp Some ne r(1) have "escanear t p toks = Some (toks @ (n # resto))"
          by (subst escanear.simps) simp
        moreover from r(2) pe have "length (n # resto) \<le> length t - p" by simp
        ultimately show ?thesis by blast
      qed
    qed
  qed
qed

text \<open>
  Claim C10. For every input string the scanner returns, and the token sequence it returns
  is no longer than the input: a whitespace character, a match (\<open>primer_patron_avanza\<close>)
  and an error token each move the offset forward by at least one character and add at
  most one token (\<open>escanear_total\<close>).
\<close>

theorem analizador_lexico_termina:
  "\<exists>tokens. analizador_lexico t = Some tokens \<and> length tokens \<le> length t"
  using escanear_total[of t 0 "[]"] by (auto simp: analizador_lexico_def)


section \<open>The scanner: patterns shadowed by an earlier pattern\<close>

lemma re_match_None: "re_match r t p = None \<longleftrightarrow> finales r t p = []"
  by (simp add: re_match_def split: list.splits)

lemma set_finales_Ast: "set (finales (Ast c) t p) = {e. p \<le> e \<and> e \<le> p + tramo c t p}"
proof -
  have "set (finales (Ast c) t p) = (\<lambda>k. p + k) ` {0..<Suc (tramo c t p)}"
    by (simp only: finales.simps set_map set_rev set_upt)
  also have "\<dots> = {e. p \<le> e \<and> e \<le> p + tramo c t p}"
  proof (intro set_eqI iffI)
    fix e assume "e \<in> (\<lambda>k. p + k) ` {0..<Suc (tramo c t p)}"
    then show "e \<in> {e. p \<le> e \<and> e \<le> p + tramo c t p}" by auto
  next
    fix e assume "e \<in> {e. p \<le> e \<and> e \<le> p + tramo c t p}"
    then have "e = p + (e - p)" "e - p \<in> {0..<Suc (tramo c t p)}" by auto
    then show "e \<in> (\<lambda>k. p + k) ` {0..<Suc (tramo c t p)}" by (rule image_eqI)
  qed
  finally show ?thesis .
qed

lemma set_finales_Mas: "set (finales (Mas c) t p) = {e. p < e \<and> e \<le> p + tramo c t p}"
proof -
  have "set (finales (Mas c) t p) = (\<lambda>k. p + k) ` {1..<Suc (tramo c t p)}"
    by (simp only: finales.simps set_map set_rev set_upt)
  also have "\<dots> = {e. p < e \<and> e \<le> p + tramo c t p}"
  proof (intro set_eqI iffI)
    fix e assume "e \<in> (\<lambda>k. p + k) ` {1..<Suc (tramo c t p)}"
    then show "e \<in> {e. p < e \<and> e \<le> p + tramo c t p}" by auto
  next
    fix e assume "e \<in> {e. p < e \<and> e \<le> p + tramo c t p}"
    then have "e = p + (e - p)" "e - p \<in> {1..<Suc (tramo c t p)}" by auto
    then show "e \<in> (\<lambda>k. p + k) ` {1..<Suc (tramo c t p)}" by (rule image_eqI)
  qed
  finally show ?thesis .
qed

lemma take_drop_literal:
  assumes "take (length s) (drop p t) = s"
  shows "drop p t = s @ drop (p + length s) t"
proof -
  have "take (length s) (drop p t) @ drop (length s) (drop p t) = drop p t"
    by (rule append_take_drop_id)
  with assms have "s @ drop (length s) (drop p t) = drop p t" by simp
  then show ?thesis by (simp add: add.commute)
qed

lemma sombra_palabra_clave:
  assumes m: "re_match (palabra_clave (c # cs)) t p \<noteq> None"
    and c: "es_letra_guion c" and cs: "list_all (en_clase AlnumGuion) cs"
  shows "re_match re_identificador t p \<noteq> None"
proof -
  let ?s = "c # cs"
  from m have f: "finales (palabra_clave ?s) t p \<noteq> []" by (simp add: re_match_None)
  then have b0: "borde t p" and lit: "take (length ?s) (drop p t) = ?s"
    and b1: "borde t (p + length ?s)"
    by (auto simp: palabra_clave_def split: if_splits)
  from take_drop_literal[OF lit] have d: "drop p t = ?s @ drop (p + length ?s) t" .
  then have lt: "p < length t"
    by (metis drop_eq_Nil2 linorder_not_less list.distinct(1) append_is_Nil_conv)
  from d lt have tp: "t ! p = c"
    by (metis Cons_nth_drop_Suc append_Cons list.inject)
  from d lt have d1: "drop (Suc p) t = cs @ drop (p + length ?s) t"
    by (metis Cons_nth_drop_Suc append_Cons list.inject)
  from cs have "takeWhile (en_clase AlnumGuion) (cs @ drop (p + length ?s) t)
      = cs @ takeWhile (en_clase AlnumGuion) (drop (p + length ?s) t)"
    by (intro takeWhile_append2) (simp add: list_all_iff)
  with d1 have tr: "length cs \<le> tramo AlnumGuion t (Suc p)"
    by (simp add: tramo_def)
  have mem: "p + length ?s \<in> set (finales (Ast AlnumGuion) t (Suc p))"
    using tr by (simp add: set_finales_Ast del: finales.simps)
  have "finales re_identificador t p
      = concat (map (finales Borde t) (finales (Ast AlnumGuion) t (Suc p)))"
  proof -
    have fb: "finales Borde t p = [p]" using b0 by simp
    have fu: "finales (Uno LetraGuion) t p = [Suc p]" using lt tp c by simp
    show ?thesis
      by (simp only: re_identificador_def finales.simps(7) fb fu list.map concat.simps
          append_Nil2)
  qed
  moreover have "finales Borde t (p + length ?s) \<noteq> []" using b1 by simp
  ultimately have "finales re_identificador t p \<noteq> []"
    using mem by (auto simp del: finales.simps)
  then show ?thesis by (simp add: re_match_None)
qed

lemma sombra_real:
  assumes m: "re_match re_real t p \<noteq> None"
  shows "re_match re_entero t p \<noteq> None"
proof -
  let ?n = "tramo Digito t p"
  from m have f: "finales re_real t p \<noteq> []" by (simp add: re_match_None)
  then have b0: "borde t p"
    by (auto simp: re_real_def simp del: finales.simps(5) split: if_splits)
  then have fb: "finales Borde t p = [p]" by simp
  have "finales re_real t p
      = concat (map (finales (Sec (Lit ''.'') (Sec (Mas Digito) Borde)) t)
          (finales (Mas Digito) t p))"
    by (simp only: re_real_def finales.simps(7) fb list.map concat.simps append_Nil2)
  with f obtain e1 where e1: "e1 \<in> set (finales (Mas Digito) t p)"
    and l0: "finales (Sec (Lit ''.'') (Sec (Mas Digito) Borde)) t e1 \<noteq> []"
    by (auto simp del: finales.simps)
  have l: "finales (Lit ''.'') t e1 \<noteq> []"
  proof
    assume "finales (Lit ''.'') t e1 = []"
    then have "finales (Sec (Lit ''.'') (Sec (Mas Digito) Borde)) t e1 = []"
      by (simp only: finales.simps(7) list.map concat.simps)
    with l0 show False by simp
  qed
  from e1 have r: "p < e1" "e1 \<le> p + ?n" by (simp_all add: set_finales_Mas del: finales.simps)
  from l have "take 1 (drop e1 t) = ''.''" by (simp split: if_splits)
  then have d: "drop e1 t = ''.'' @ drop (e1 + 1) t"
    using take_drop_literal[of "''.''" e1 t] by simp
  then have lt: "e1 < length t"
    by (metis drop_eq_Nil2 linorder_not_less list.distinct(1) append_is_Nil_conv)
  from d lt have punto: "t ! e1 = CHR ''.''"
    by (metis Cons_nth_drop_Suc append_Cons list.inject)
  have fin: "e1 = p + ?n"
  proof (rule ccontr)
    assume "e1 \<noteq> p + ?n"
    with r have "e1 - p < ?n" by simp
    from tramo_clase[OF this] r have "en_clase Digito (t ! e1)" by simp
    with punto show False by (simp add: es_digito_def)
  qed
  have prev: "es_palabra (t ! (e1 - 1))"
  proof -
    from r fin have "e1 - 1 - p < ?n" by simp
    from tramo_clase[OF this] r have "en_clase Digito (t ! (e1 - 1))" by simp
    then show ?thesis by (simp add: es_palabra_def)
  qed
  have "\<not> es_palabra (CHR ''.'')"
    by (simp add: es_palabra_def es_digito_def es_letra_guion_def)
  with prev punto lt r have b1: "borde t e1" by (simp add: borde_def)
  have "finales re_entero t p = concat (map (finales Borde t) (finales (Mas Digito) t p))"
    by (simp only: re_entero_def finales.simps(7) fb list.map concat.simps append_Nil2)
  moreover have "finales Borde t e1 \<noteq> []" using b1 by simp
  ultimately have "finales re_entero t p \<noteq> []"
    using e1 by (auto simp del: finales.simps)
  then show ?thesis by (simp add: re_match_None)
qed

lemma sombra_clave_None:
  assumes "re_match re_identificador t p = None"
    and "es_letra_guion c" and "list_all (en_clase AlnumGuion) cs"
  shows "re_match (palabra_clave (c # cs)) t p = None"
proof (rule ccontr)
  assume "re_match (palabra_clave (c # cs)) t p \<noteq> None"
  from sombra_palabra_clave[OF this assms(2,3)] assms(1) show False by simp
qed

lemma sombra_if:
  "re_match re_identificador t p = None \<Longrightarrow> re_match (palabra_clave ''if'') t p = None"
  by (rule sombra_clave_None) (simp_all add: es_letra_guion_def es_digito_def)

lemma sombra_else:
  "re_match re_identificador t p = None \<Longrightarrow> re_match (palabra_clave ''else'') t p = None"
  by (rule sombra_clave_None) (simp_all add: es_letra_guion_def es_digito_def)

lemma sombra_while:
  "re_match re_identificador t p = None \<Longrightarrow> re_match (palabra_clave ''while'') t p = None"
  by (rule sombra_clave_None) (simp_all add: es_letra_guion_def es_digito_def)

lemma sombra_return:
  "re_match re_identificador t p = None \<Longrightarrow> re_match (palabra_clave ''return'') t p = None"
  by (rule sombra_clave_None) (simp_all add: es_letra_guion_def es_digito_def)

lemma sombra_real_None: "re_match re_entero t p = None \<Longrightarrow> re_match re_real t p = None"
proof (rule ccontr)
  assume a: "re_match re_entero t p = None" and "re_match re_real t p \<noteq> None"
  from sombra_real[OF this(2)] a show False by simp
qed

lemma primer_patron_nombres:
  assumes "primer_patron patrones t p = Some (n, e)"
  shows "n \<notin> inalcanzables"
  using assms
  by (auto simp: patrones_def inalcanzables_def sombra_if sombra_else sombra_while sombra_return
      sombra_real_None split: option.split_asm)


lemma token_error_alcanzable: "token_error c \<notin> inalcanzables"
  by (simp add: token_error_def inalcanzables_def)

lemma escanear_nombres:
  assumes "escanear t p toks = Some r"
  shows "set toks \<inter> inalcanzables = {} \<longrightarrow> set r \<inter> inalcanzables = {}"
proof (rule escanear.raw_induct[where P = "\<lambda>t p toks r.
    set toks \<inter> inalcanzables = {} \<longrightarrow> set r \<inter> inalcanzables = {}", OF _ assms], goal_cases)
  case (1 esc t p toks r)
  show ?case
  proof
    assume ok: "set toks \<inter> inalcanzables = {}"
    show "set r \<inter> inalcanzables = {}"
    proof (cases "p < length t")
      case False
      with 1(2) ok show ?thesis by simp
    next
      case lt: True
      show ?thesis
      proof (cases "isspace (t ! p)")
        case True
        with lt 1(2) have "esc t (p + 1) toks = Some r" by simp
        from 1(1)[OF this] ok show ?thesis by simp
      next
        case nsp: False
        show ?thesis
        proof (cases "primer_patron patrones t p")
          case None
          with lt nsp 1(2) have "esc t (p + 1) (toks @ [token_error (t ! p)]) = Some r"
            by simp
          moreover have "set (toks @ [token_error (t ! p)]) \<inter> inalcanzables = {}"
            using ok token_error_alcanzable by simp
          ultimately show ?thesis using 1(1) by blast
        next
          case (Some ne)
          obtain n e where ne: "ne = (n, e)" by (cases ne)
          with Some lt nsp 1(2) have "esc t e (toks @ [n]) = Some r" by simp
          moreover have "set (toks @ [n]) \<inter> inalcanzables = {}"
            using ok primer_patron_nombres[of t p n e] Some ne by simp
          ultimately show ?thesis using 1(1) by blast
        qed
      qed
    qed
  qed
qed

text \<open>
  Claim C9. For every source text the scanner returns a token sequence in which none of
  \<open>if\<close>, \<open>else\<close>, \<open>while\<close>, \<open>return\<close> and \<open>real\<close> occurs: where a keyword pattern
  matches, the earlier \<open>identificador\<close> pattern matches (\<open>sombra_palabra_clave\<close>), and where
  the \<open>real\<close> pattern matches, the earlier \<open>entero\<close> pattern matches (\<open>sombra_real\<close>).
\<close>

theorem palabras_clave_inalcanzables:
  "\<exists>tokens. analizador_lexico t = Some tokens \<and>
     set tokens \<inter> {''if'', ''else'', ''while'', ''return'', ''real''} = {}"
proof -
  from escanear_total[of t 0 "[]"] obtain tokens where r: "escanear t 0 [] = Some tokens"
    by auto
  from escanear_nombres[OF r] have "set tokens \<inter> inalcanzables = {}" by simp
  with r show ?thesis by (simp add: analizador_lexico_def inalcanzables_def)
qed

section \<open>The scanner: one step at an offset\<close>

text \<open>
  Claim C6. At an offset inside the text that holds no whitespace, when a pattern of the
  priority list matches and every pattern before it in the list fails, the scanner appends
  the name of that pattern and goes on from the end of that match, whatever the later
  patterns would match: the first pattern in list order wins, not the longest match.
\<close>

theorem primer_patron_prioridad:
  assumes "posicion < length t" and "\<not> isspace (t ! posicion)"
    and "patrones = antes @ (nombre, r) # despues"
    and "\<forall>x \<in> set antes. re_match (snd x) t posicion = None"
    and "re_match r t posicion = Some fin"
  shows "escanear t posicion tokens = escanear t fin (tokens @ [nombre]) \<and>
         (\<exists>resto. escanear t posicion tokens = Some (tokens @ nombre # resto))"
proof -
  have "primer_patron (antes @ (nombre, r) # despues) t posicion = Some (nombre, fin)"
    by (rule primer_patron_primero[OF assms(4,5)])
  then have pp: "primer_patron patrones t posicion = Some (nombre, fin)"
    by (simp only: assms(3)[symmetric])
  with assms(1,2) have eq: "escanear t posicion tokens = escanear t fin (tokens @ [nombre])"
    by (subst escanear.simps) simp
  from escanear_total[of t fin "tokens @ [nombre]"] obtain resto where
    "escanear t fin (tokens @ [nombre]) = Some ((tokens @ [nombre]) @ resto)" by blast
  with eq show ?thesis by simp
qed

text \<open>
  Claim C7. At an offset inside the text that holds no whitespace, when no pattern matches,
  the scanner appends the error token \<open>ERROR(c)\<close> that carries the single character \<open>c\<close>
  at that offset, goes on from the next offset, and returns a token sequence in which that
  error token stands right after the tokens emitted before it.
\<close>

theorem error_lexico:
  assumes "posicion < length t" and "\<not> isspace (t ! posicion)"
    and "\<forall>x \<in> set patrones. re_match (snd x) t posicion = None"
  shows "escanear t posicion tokens
           = escanear t (posicion + 1) (tokens @ [''ERROR('' @ [t ! posicion] @ '')'']) \<and>
         (\<exists>resto. escanear t posicion tokens
            = Some (tokens @ (''ERROR('' @ [t ! posicion] @ '')'') # resto))"
proof -
  from assms(3) have pp: "primer_patron patrones t posicion = None"
    by (simp only: primer_patron_None)
  with assms(1,2) have eq: "escanear t posicion tokens
      = escanear t (posicion + 1) (tokens @ [token_error (t ! posicion)])"
    by (subst escanear.simps) simp
  from escanear_total[of t "posicion + 1" "tokens @ [token_error (t ! posicion)]"]
  obtain resto where "escanear t (posicion + 1) (tokens @ [token_error (t ! posicion)])
      = Some ((tokens @ [token_error (t ! posicion)]) @ resto)" by blast
  with eq show ?thesis by (simp add: token_error_def)
qed


section \<open>The scanner on concrete texts\<close>

lemmas eval_regex = re_match_def palabra_clave_def re_identificador_def re_entero_def
  re_real_def re_cadena_def borde_def tramo_def es_palabra_def es_digito_def
  es_letra_guion_def isspace_def

text \<open>
  On \<open>3.14\<close> the pattern \<open>entero\<close> ends at offset 1 and the later pattern \<open>real\<close> would end at
  offset 4; the scanner emits \<open>entero\<close>.
\<close>

theorem primer_patron_prioridad_witness:
  "re_match re_entero ''3.14'' 0 = Some 1 \<and> re_match re_real ''3.14'' 0 = Some 4 \<and>
   escanear ''3.14'' 0 [] = escanear ''3.14'' 1 [''entero''] \<and>
   (\<exists>resto. escanear ''3.14'' 0 [] = Some (''entero'' # resto))"
proof -
  have h1: "0 < length ''3.14''" by simp
  have h2: "\<not> isspace (''3.14'' ! 0)" by (simp add: isspace_def)
  have h3: "patrones = take 6 patrones @ (''entero'', re_entero) # drop 7 patrones"
    by (simp add: patrones_def)
  have h4: "\<forall>x \<in> set (take 6 patrones). re_match (snd x) ''3.14'' 0 = None"
    by (simp add: patrones_def eval_regex)
  have h5: "re_match re_entero ''3.14'' 0 = Some 1"
    by (simp add: eval_regex)
  have h6: "re_match re_real ''3.14'' 0 = Some 4"
    by (simp add: eval_regex)
  note th = primer_patron_prioridad[OF h1 h2 h3 h4 h5, of "[]"]
  have c1: "escanear ''3.14'' 0 [] = escanear ''3.14'' 1 [''entero'']"
    using th[THEN conjunct1] by (simp only: append_Nil)
  have c2: "\<exists>resto. escanear ''3.14'' 0 [] = Some (''entero'' # resto)"
    using th[THEN conjunct2] by (simp only: append_Nil)
  from h5 h6 c1 c2 show ?thesis by (intro conjI)
qed

text \<open>On \<open>a@b\<close> no pattern matches at offset 1.\<close>

theorem error_lexico_witness:
  "escanear ''a@b'' 1 [''identificador'']
     = escanear ''a@b'' 2 [''identificador'', ''ERROR(@)''] \<and>
   (\<exists>resto. escanear ''a@b'' 1 [''identificador'']
      = Some ([''identificador'', ''ERROR(@)''] @ resto))"
proof -
  have h1: "1 < length ''a@b''" by simp
  have h2: "\<not> isspace (''a@b'' ! 1)" by (simp add: isspace_def)
  have h3: "\<forall>x \<in> set patrones. re_match (snd x) ''a@b'' 1 = None"
    by (simp add: patrones_def eval_regex)
  note th = error_lexico[OF h1 h2 h3, of "[''identificador'']"]
  have n: "''a@b'' ! 1 = CHR ''@''" "(1::nat) + 1 = 2" by simp_all
  have c1: "escanear ''a@b'' 1 [''identificador'']
     = escanear ''a@b'' 2 [''identificador'', ''ERROR(@)'']"
    using th[THEN conjunct1] by (simp only: n append.simps)
  have c2: "\<exists>resto. escanear ''a@b'' 1 [''identificador'']
      = Some ([''identificador'', ''ERROR(@)''] @ resto)"
    using th[THEN conjunct2] by (simp only: n append.simps)
  from c1 c2 show ?thesis by (intro conjI)
qed

section \<open>The driver: the pops of a reduction and one round of the loop\<close>

lemma desapilar_ok:
  "2 * n \<le> length p \<Longrightarrow>
     desapilar n p acc = Inr (rev (segundos (take (2 * n) p)) @ acc, drop (2 * n) p)"
proof (induction n arbitrary: p acc)
  case 0
  then show ?case by simp
next
  case (Suc n)
  then obtain a b p' where p: "p = a # b # p'"
    by (cases p rule: segundos.cases) auto
  with Suc.prems have "2 * n \<le> length p'" by simp
  from Suc.IH[OF this] p show ?case by (simp add: pop_def)
qed

lemma desapilar_falla:
  "length p < 2 * n \<Longrightarrow> desapilar n p acc = Inl PilaVacia"
proof (induction n arbitrary: p acc)
  case 0
  then show ?case by simp
next
  case (Suc n)
  show ?case
  proof (cases p rule: segundos.cases)
    case (1 a b p')
    with Suc.prems have "length p' < 2 * n" by simp
    from Suc.IH[OF this] 1 show ?thesis by (simp add: pop_def)
  qed (simp_all add: pop_def)
qed

lemma reducir_regla:
  assumes "py_int (drop 1 accion) = Some n" and "n \<noteq> 0" and "obtener_regla n = Some regla"
    and "split_sep '' ::= '' regla = [cabecera, cuerpo]"
  shows "reducir s accion =
     (let k = (if strip cuerpo \<noteq> cuerpo_vacio then length (split (strip cuerpo)) else 0)
      in if 2 * k \<le> length (pila s)
         then tras_reducir s cabecera (rev (segundos (take (2 * k) (pila s))))
                (drop (2 * k) (pila s))
         else Lanza PilaVacia (s\<lparr>pila := []\<rparr>))"
proof (cases "strip cuerpo \<noteq> cuerpo_vacio")
  case False
  with assms show ?thesis
    by (simp add: reducir_def tras_reducir_def push_def Let_def split: sum.splits option.splits)
next
  case True
  let ?k = "length (split (strip cuerpo))"
  show ?thesis
  proof (cases "2 * ?k \<le> length (pila s)")
    case le: True
    from desapilar_ok[OF le, of "[]"] assms True le show ?thesis
      by (simp add: reducir_def tras_reducir_def push_def Let_def split: sum.splits option.splits)
  next
    case False
    then have "length (pila s) < 2 * ?k" by simp
    from desapilar_falla[OF this, of "[]"] assms True False show ?thesis
      by (simp add: reducir_def Let_def)
  qed
qed

lemma reducir_Continua_regla:
  assumes "reducir s accion = Continua s'"
  shows "\<exists>n regla cabecera cuerpo. py_int (drop 1 accion) = Some n \<and> n \<noteq> 0 \<and>
           obtener_regla n = Some regla \<and> split_sep '' ::= '' regla = [cabecera, cuerpo]"
  using assms
  by (auto simp: reducir_def split: option.splits if_splits list.splits)


lemma desplazar_Continua:
  assumes "desplazar s accion tok = Continua s'"
  shows "\<exists>g t resto. py_int (drop 1 accion) = Some g \<and> flujo_entrada s = t # resto \<and>
           s' = s\<lparr>pila := Entero g # Arbol tok [] # pila s, flujo_entrada := resto\<rparr>"
  using assms
  by (auto simp: desplazar_def push_def Let_def split: option.splits list.splits)

lemma desplazar_no_Retorna: "desplazar s accion tok \<noteq> Retorna s'"
  by (auto simp: desplazar_def Let_def split: option.splits list.splits)

lemma reducir_no_Retorna: "reducir s accion \<noteq> Retorna s'"
  by (auto simp: reducir_def Let_def push_def split: option.splits list.splits sum.splits)

lemma iteracion_accion:
  assumes "\<not> error_ocurrido s" and "obtener_estado_actual s = Inr estado"
    and "obtener_accion (tabla s) estado (token_actual s) = Inr accion"
  shows "iteracion s =
     (if startswith accion ''d'' then desplazar (anotar s accion) accion (token_actual s)
      else if startswith accion ''r'' then reducir (anotar s accion) accion
      else if accion = ''accept'' then Retorna (anotar s accion)
      else Retorna (manejar_error (anotar s accion) estado (token_actual s)))"
  using assms by (simp add: iteracion_def Let_def)

lemma iteracion_casos:
  assumes "\<not> error_ocurrido s"
  shows "(\<exists>e. iteracion s = Lanza e s) \<or>
     (\<exists>estado accion. obtener_estado_actual s = Inr estado \<and>
        obtener_accion (tabla s) estado (token_actual s) = Inr accion)"
  using assms by (auto simp: iteracion_def Let_def split: sum.splits)

lemma iteracion_error: "error_ocurrido s \<Longrightarrow> iteracion s = Retorna s"
  by (simp add: iteracion_def)


lemma tras_reducir_Continua:
  assumes "tras_reducir s cabecera hs p1 = Continua s'"
  shows "\<exists>estado. primer_entero p1 = Some estado \<and>
     ((obtener_goto (tabla s) estado cabecera = Inr None \<and>
       s' = manejar_error (s\<lparr>pila := Arbol cabecera hs # p1\<rparr>) estado cabecera) \<or>
      (\<exists>g. obtener_goto (tabla s) estado cabecera = Inr (Some g) \<and>
         s' = (if arbol s = None \<and> cabecera = ''<programa>''
               then s\<lparr>pila := Entero g # Arbol cabecera hs # p1,
                      arbol := Some (Arbol cabecera hs)\<rparr>
               else s\<lparr>pila := Entero g # Arbol cabecera hs # p1\<rparr>)))"
proof (cases "primer_entero p1")
  case None
  with assms show ?thesis by (simp add: tras_reducir_def obtener_estado_actual_def)
next
  case (Some estado)
  show ?thesis
  proof (cases "obtener_goto (tabla s) estado cabecera")
    case (Inl e)
    with Some assms show ?thesis by (simp add: tras_reducir_def obtener_estado_actual_def)
  next
    case (Inr og)
    with Some assms show ?thesis
      by (cases og) (simp_all add: tras_reducir_def obtener_estado_actual_def)
  qed
qed

lemma reducir_Continua:
  assumes "reducir s accion = Continua s'"
  obtains n regla cabecera cuerpo k estado hs p1 where
    "py_int (drop 1 accion) = Some n" and "n \<noteq> 0" and "obtener_regla n = Some regla"
    and "split_sep '' ::= '' regla = [cabecera, cuerpo]"
    and "k = (if strip cuerpo \<noteq> cuerpo_vacio then length (split (strip cuerpo)) else 0)"
    and "2 * k \<le> length (pila s)"
    and "hs = rev (segundos (take (2 * k) (pila s)))" and "p1 = drop (2 * k) (pila s)"
    and "primer_entero p1 = Some estado"
    and "(obtener_goto (tabla s) estado cabecera = Inr None \<and>
          s' = manejar_error (s\<lparr>pila := Arbol cabecera hs # p1\<rparr>) estado cabecera) \<or>
         (\<exists>g. obtener_goto (tabla s) estado cabecera = Inr (Some g) \<and>
            s' = (if arbol s = None \<and> cabecera = ''<programa>''
                  then s\<lparr>pila := Entero g # Arbol cabecera hs # p1,
                         arbol := Some (Arbol cabecera hs)\<rparr>
                  else s\<lparr>pila := Entero g # Arbol cabecera hs # p1\<rparr>))"
proof -
  from reducir_Continua_regla[OF assms] obtain n regla cabecera cuerpo where
    r: "py_int (drop 1 accion) = Some n" "n \<noteq> 0" "obtener_regla n = Some regla"
       "split_sep '' ::= '' regla = [cabecera, cuerpo]" by blast
  define k where "k = (if strip cuerpo \<noteq> cuerpo_vacio then length (split (strip cuerpo)) else 0)"
  define hs where "hs = rev (segundos (take (2 * k) (pila s)))"
  define p1 where "p1 = drop (2 * k) (pila s)"
  from reducir_regla[OF r, of s] assms have
    le: "2 * k \<le> length (pila s)" and
    tr: "tras_reducir s cabecera hs p1 = Continua s'"
    by (auto simp: k_def hs_def p1_def Let_def split: if_splits)
  from tras_reducir_Continua[OF tr] obtain estado where
    e: "primer_entero p1 = Some estado" and
    g: "(obtener_goto (tabla s) estado cabecera = Inr None \<and>
          s' = manejar_error (s\<lparr>pila := Arbol cabecera hs # p1\<rparr>) estado cabecera) \<or>
         (\<exists>g. obtener_goto (tabla s) estado cabecera = Inr (Some g) \<and>
            s' = (if arbol s = None \<and> cabecera = ''<programa>''
                  then s\<lparr>pila := Entero g # Arbol cabecera hs # p1,
                         arbol := Some (Arbol cabecera hs)\<rparr>
                  else s\<lparr>pila := Entero g # Arbol cabecera hs # p1\<rparr>))"
    by blast
  from r k_def le hs_def p1_def e g show ?thesis by (rule that)
qed

lemma anotar_campos [simp]:
  "pila (anotar s texto) = pila s"
  "flujo_entrada (anotar s texto) = flujo_entrada s"
  "arbol (anotar s texto) = arbol s"
  "error_ocurrido (anotar s texto) = error_ocurrido s"
  "tabla (anotar s texto) = tabla s"
  "salida_proceso (anotar s texto) = salida_proceso s @
     [(obtener_pila_como_cadena s, join '' '' (flujo_entrada s), texto)]"
  by (simp_all add: anotar_def)

lemma manejar_error_campos [simp]:
  "pila (manejar_error s e tok) = pila s"
  "flujo_entrada (manejar_error s e tok) = flujo_entrada s"
  "arbol (manejar_error s e tok) = arbol s"
  "error_ocurrido (manejar_error s e tok) = True"
  "tabla (manejar_error s e tok) = tabla s"
  "salida_proceso (manejar_error s e tok) = salida_proceso s @
     [(obtener_pila_como_cadena s, join '' '' (flujo_entrada s), mensaje_error e tok)]"
  by (simp_all add: manejar_error_def)

lemma alterna_dos:
  assumes "alterna p" and "2 \<le> length p"
  shows "\<exists>e v hs p'. p = Entero e # Arbol v hs # p' \<and> alterna p'"
  using assms by (cases p rule: alterna.cases) auto

lemma alterna_drop: "alterna p \<Longrightarrow> 2 * k \<le> length p \<Longrightarrow> alterna (drop (2 * k) p)"
proof (induction k arbitrary: p)
  case 0
  then show ?case by simp
next
  case (Suc k)
  from alterna_dos[OF Suc.prems(1)] Suc.prems(2) obtain e v hs p' where
    p: "p = Entero e # Arbol v hs # p'" "alterna p'" by auto
  with Suc.prems(2) have "2 * k \<le> length p'" by simp
  from Suc.IH[OF p(2) this] p(1) show ?case by simp
qed

lemma paso_alterna:
  assumes a: "alterna (pila s)" and ne: "\<not> error_ocurrido s" and it: "iteracion s = Continua s'"
  shows "if error_ocurrido s' then nodo_sobre_alterna (pila s') else alterna (pila s')"
proof -
  from iteracion_casos[OF ne] it obtain estado accion where
    ea: "obtener_estado_actual s = Inr estado"
        "obtener_accion (tabla s) estado (token_actual s) = Inr accion" by auto
  note ia = iteracion_accion[OF ne ea]
  show ?thesis
  proof (cases "startswith accion ''d''")
    case True
    with ia it have "desplazar (anotar s accion) accion (token_actual s) = Continua s'" by simp
    from desplazar_Continua[OF this] a ne show ?thesis by auto
  next
    case nd: False
    show ?thesis
    proof (cases "startswith accion ''r''")
      case True
      with nd ia it have red: "reducir (anotar s accion) accion = Continua s'" by simp
      show ?thesis
      proof (rule reducir_Continua[OF red], goal_cases)
        case (1 n regla cabecera cuerpo k estado' hs p1)
        from alterna_drop[OF a, of k] 1(6,8) have ad: "alterna p1" by simp
        from 1(10) show ?case
        proof (elim disjE conjE exE)
          assume "s' = manejar_error ((anotar s accion)\<lparr>pila := Arbol cabecera hs # p1\<rparr>)
                         estado' cabecera"
          with ad show ?thesis by simp
        next
          fix g
          assume "s' = (if arbol (anotar s accion) = None \<and> cabecera = ''<programa>''
                  then (anotar s accion)\<lparr>pila := Entero g # Arbol cabecera hs # p1,
                         arbol := Some (Arbol cabecera hs)\<rparr>
                  else (anotar s accion)\<lparr>pila := Entero g # Arbol cabecera hs # p1\<rparr>)"
          with ad ne show ?thesis by (simp split: if_splits)
        qed
      qed
    next
      case False
      with nd ia it show ?thesis by (simp split: if_splits)
    qed
  qed
qed

lemma paso_retorna:
  assumes ne: "\<not> error_ocurrido s" and it: "iteracion s = Retorna s'"
  shows "pila s' = pila s \<and> flujo_entrada s' = flujo_entrada s \<and> arbol s' = arbol s"
proof -
  from iteracion_casos[OF ne] it obtain estado accion where
    ea: "obtener_estado_actual s = Inr estado"
        "obtener_accion (tabla s) estado (token_actual s) = Inr accion" by auto
  from iteracion_accion[OF ne ea] it have
    "s' = anotar s accion \<or> s' = manejar_error (anotar s accion) estado (token_actual s)"
    using desplazar_no_Retorna[of "anotar s accion" accion "token_actual s" s']
      reducir_no_Retorna[of "anotar s accion" accion s']
    by (auto split: if_splits)
  then show ?thesis by auto
qed

section \<open>The driver: what holds along a run\<close>

lemma analizar_final:
  assumes "analizar s = Some f" and "P s"
    and paso: "\<And>a b. P a \<Longrightarrow> iteracion a = Continua b \<Longrightarrow> P b"
  shows "\<exists>a. P a \<and> (case f of Devuelve b \<Rightarrow> iteracion a = Retorna b
                            | Aborta e b \<Rightarrow> iteracion a = Lanza e b)"
proof -
  have "P s \<longrightarrow> (\<exists>a. P a \<and> (case f of Devuelve b \<Rightarrow> iteracion a = Retorna b
                            | Aborta e b \<Rightarrow> iteracion a = Lanza e b))"
  proof (rule analizar.raw_induct[where P = "\<lambda>s f. P s \<longrightarrow>
      (\<exists>a. P a \<and> (case f of Devuelve b \<Rightarrow> iteracion a = Retorna b
                            | Aborta e b \<Rightarrow> iteracion a = Lanza e b))", OF _ assms(1)], goal_cases)
    case (1 an s f)
    show ?case
    proof
      assume ps: "P s"
      show "\<exists>a. P a \<and> (case f of Devuelve b \<Rightarrow> iteracion a = Retorna b
                            | Aborta e b \<Rightarrow> iteracion a = Lanza e b)"
      proof (cases "iteracion s")
        case (Continua s1)
        with 1(2) have "an s1 = Some f" by simp
        from 1(1)[OF this] paso[OF ps Continua] show ?thesis by simp
      next
        case (Retorna s1)
        with 1(2) have "f = Devuelve s1" by simp
        with Retorna ps show ?thesis by auto
      next
        case (Lanza e s1)
        with 1(2) have "f = Aborta e s1" by simp
        with Lanza ps show ?thesis by auto
      qed
    qed
  qed
  with assms(2) show ?thesis by simp
qed

lemma alcanza_invariante:
  assumes "alcanza s0 s" and "alterna (pila s0)" and "\<not> error_ocurrido s0"
  shows "if error_ocurrido s then alterna (pila s) \<or> nodo_sobre_alterna (pila s)
         else alterna (pila s)"
  using assms
proof (induction rule: alcanza.induct)
  case alcanza_inicio
  then show ?case by simp
next
  case (alcanza_sigue s s1)
  from alcanza_sigue.hyps(2) have ne: "\<not> error_ocurrido s"
    by (auto simp: iteracion_error)
  with alcanza_sigue have "alterna (pila s)" by simp
  from paso_alterna[OF this ne alcanza_sigue.hyps(2)] show ?case by (simp split: if_splits)
next
  case (alcanza_retorna s s1)
  show ?case
  proof (cases "error_ocurrido s")
    case True
    with alcanza_retorna.hyps(2) have "s1 = s" by (simp add: iteracion_error)
    with alcanza_retorna True show ?thesis by simp
  next
    case False
    with alcanza_retorna have "alterna (pila s)" by simp
    with paso_retorna[OF False alcanza_retorna.hyps(2)] show ?thesis by simp
  qed
qed

text \<open>
  Claim C4, amended. The stack starts as the single state 0. In every state that the loop
  reaches with the error flag unset the stack alternates state, node, ..., state; a round
  that returns (an accept, or an error for which the table has no action) leaves the stack
  as it is; a round after which the loop goes on leaves an alternating stack when the flag
  is still unset (a shift, a reduction whose goto lookup succeeds) and leaves the new node
  on top of an alternating stack when the flag is set (a reduction whose goto lookup
  fails). With the flag set the stack is one of the two.
\<close>

theorem pila_alterna:
  assumes "alcanza (con_entrada T entrada) s"
  shows "pila (con_entrada T entrada) = [Entero 0] \<and>
         (if error_ocurrido s then alterna (pila s) \<or> nodo_sobre_alterna (pila s)
          else alterna (pila s) \<and>
               (\<forall>s'. iteracion s = Retorna s' \<longrightarrow> pila s' = pila s) \<and>
               (\<forall>s'. iteracion s = Continua s' \<longrightarrow>
                  (if error_ocurrido s' then nodo_sobre_alterna (pila s')
                   else alterna (pila s'))))"
proof -
  let ?s0 = "con_entrada T entrada"
  have p0: "pila ?s0 = [Entero 0]" and e0: "\<not> error_ocurrido ?s0"
    by (simp_all add: con_entrada_def AnalizadorLR_def push_def)
  from p0 have a0: "alterna (pila ?s0)" by simp
  note inv = alcanza_invariante[OF assms a0 e0]
  show ?thesis
  proof (cases "error_ocurrido s")
    case True
    with inv p0 show ?thesis by simp
  next
    case False
    with inv have a: "alterna (pila s)" by simp
    from False a p0 paso_retorna[OF False] paso_alterna[OF a False] show ?thesis
      by (simp del: alterna.simps nodo_sobre_alterna.simps)
  qed
qed


section \<open>The driver: a reduction\<close>

lemma pila_como_cadena_pila:
  "pila a = pila b \<Longrightarrow> obtener_pila_como_cadena a = obtener_pila_como_cadena b"
  by (simp add: obtener_pila_como_cadena_def)

lemma analizar_error: "error_ocurrido s \<Longrightarrow> analizar s = Some (Devuelve s)"
  by (subst analizar.simps) (simp add: iteracion_error)

text \<open>
  Claim C2, amended. A reduction that does not raise pops the right-hand side, reads the
  exposed state, pushes the new node and only then looks up the goto. When the lookup gives
  a state, that state is pushed on top of the node, and flag and trace stay as they were.
  When the lookup gives none, the node stays on top of the stack with no state above it,
  the error flag is set, one trace entry is appended whose message names that state and
  that nonterminal, and the next round of the loop returns normally.
\<close>

theorem reducir_goto:
  assumes "reducir s accion = Continua s'"
  shows "\<exists>cabecera hs k estado.
     primer_entero (drop (2 * k) (pila s)) = Some estado \<and>
     (case obtener_goto (tabla s) estado cabecera of
        Inl e \<Rightarrow> False
      | Inr None \<Rightarrow>
          pila s' = Arbol cabecera hs # drop (2 * k) (pila s) \<and>
          error_ocurrido s' \<and>
          salida_proceso s' = salida_proceso s @
            [(obtener_pila_como_cadena s', join '' '' (flujo_entrada s),
              mensaje_error estado cabecera)] \<and>
          flujo_entrada s' = flujo_entrada s \<and> arbol s' = arbol s \<and>
          iteracion s' = Retorna s' \<and> analizar s' = Some (Devuelve s')
      | Inr (Some g) \<Rightarrow>
          pila s' = Entero g # Arbol cabecera hs # drop (2 * k) (pila s) \<and>
          error_ocurrido s' = error_ocurrido s \<and>
          salida_proceso s' = salida_proceso s \<and> flujo_entrada s' = flujo_entrada s)"
proof (rule reducir_Continua[OF assms], goal_cases)
  case (1 n regla cabecera cuerpo k estado hs p1)
  from 1(10) show ?case
  proof (elim disjE conjE exE)
    assume g: "obtener_goto (tabla s) estado cabecera = Inr None"
      and s': "s' = manejar_error (s\<lparr>pila := Arbol cabecera hs # p1\<rparr>) estado cabecera"
    from s' have e: "error_ocurrido s'" by simp
    have pc: "obtener_pila_como_cadena (s\<lparr>pila := Arbol cabecera hs # p1\<rparr>)
        = obtener_pila_como_cadena s'"
      by (rule pila_como_cadena_pila) (simp add: s')
    have "primer_entero (drop (2 * k) (pila s)) = Some estado \<and>
     (case obtener_goto (tabla s) estado cabecera of
        Inl e \<Rightarrow> False
      | Inr None \<Rightarrow>
          pila s' = Arbol cabecera hs # drop (2 * k) (pila s) \<and>
          error_ocurrido s' \<and>
          salida_proceso s' = salida_proceso s @
            [(obtener_pila_como_cadena s', join '' '' (flujo_entrada s),
              mensaje_error estado cabecera)] \<and>
          flujo_entrada s' = flujo_entrada s \<and> arbol s' = arbol s \<and>
          iteracion s' = Retorna s' \<and> analizar s' = Some (Devuelve s')
      | Inr (Some g) \<Rightarrow>
          pila s' = Entero g # Arbol cabecera hs # drop (2 * k) (pila s) \<and>
          error_ocurrido s' = error_ocurrido s \<and>
          salida_proceso s' = salida_proceso s \<and> flujo_entrada s' = flujo_entrada s)"
      using g 1(8,9) e iteracion_error[OF e] analizar_error[OF e] pc[symmetric]
      by (simp add: s')
    then show ?thesis by blast
  next
    fix g
    assume g: "obtener_goto (tabla s) estado cabecera = Inr (Some g)"
      and s': "s' = (if arbol s = None \<and> cabecera = ''<programa>''
                  then s\<lparr>pila := Entero g # Arbol cabecera hs # p1,
                         arbol := Some (Arbol cabecera hs)\<rparr>
                  else s\<lparr>pila := Entero g # Arbol cabecera hs # p1\<rparr>)"
    have "primer_entero (drop (2 * k) (pila s)) = Some estado \<and>
     (case obtener_goto (tabla s) estado cabecera of
        Inl e \<Rightarrow> False
      | Inr None \<Rightarrow>
          pila s' = Arbol cabecera hs # drop (2 * k) (pila s) \<and>
          error_ocurrido s' \<and>
          salida_proceso s' = salida_proceso s @
            [(obtener_pila_como_cadena s', join '' '' (flujo_entrada s),
              mensaje_error estado cabecera)] \<and>
          flujo_entrada s' = flujo_entrada s \<and> arbol s' = arbol s \<and>
          iteracion s' = Retorna s' \<and> analizar s' = Some (Devuelve s')
      | Inr (Some g) \<Rightarrow>
          pila s' = Entero g # Arbol cabecera hs # drop (2 * k) (pila s) \<and>
          error_ocurrido s' = error_ocurrido s \<and>
          salida_proceso s' = salida_proceso s \<and> flujo_entrada s' = flujo_entrada s)"
      using g 1(8,9) by (simp add: s')
    then show ?thesis by blast
  qed
qed

lemma length_segundos_take:
  "2 * k \<le> length p \<Longrightarrow> length (segundos (take (2 * k) p)) = k"
proof (induction k arbitrary: p)
  case 0
  then show ?case by simp
next
  case (Suc k)
  then obtain a b p' where p: "p = a # b # p'"
    by (cases p rule: segundos.cases) auto
  with Suc.prems have "2 * k \<le> length p'" by simp
  from Suc.IH[OF this] p show ?case by simp
qed

text \<open>
  Claim C3. A reduction by a rule whose right-hand side has \<open>k\<close> symbols (none for the
  empty production) that does not raise removes the \<open>2 * k\<close> topmost stack elements, \<open>k\<close>
  pairs of a state and the element under it, and the new node, labelled with the rule's
  left-hand side, has as children the \<open>k\<close> second elements of those pairs in the reverse
  of the order in which they were popped; for \<open>k = 0\<close> nothing is popped and the node has
  no children.
\<close>

theorem reducir_desapila:
  assumes "reducir s accion = Continua s'"
    and "py_int (drop 1 accion) = Some n" and "obtener_regla n = Some regla"
    and "split_sep '' ::= '' regla = [cabecera, cuerpo]"
    and "k = (if strip cuerpo = cuerpo_vacio then 0 else length (split (strip cuerpo)))"
  shows "2 * k \<le> length (pila s) \<and>
         length (rev (segundos (take (2 * k) (pila s)))) = k \<and>
         (pila s' = Arbol cabecera (rev (segundos (take (2 * k) (pila s))))
                      # drop (2 * k) (pila s) \<or>
          (\<exists>g. pila s' = Entero g # Arbol cabecera (rev (segundos (take (2 * k) (pila s))))
                      # drop (2 * k) (pila s)))"
proof (rule reducir_Continua[OF assms(1)], goal_cases)
  case (1 n' regla' cabecera' cuerpo' k' estado hs p1)
  from 1(1,3,4) assms(2,3,4) have eq: "cabecera' = cabecera" "cuerpo' = cuerpo" by simp_all
  with 1(5) assms(5) have k: "k' = k" by simp
  from 1(6) k have le: "2 * k \<le> length (pila s)" by simp
  from 1(10) have "pila s' = Arbol cabecera' hs # p1 \<or>
      (\<exists>g. pila s' = Entero g # Arbol cabecera' hs # p1)"
  proof (elim disjE conjE exE)
    assume "s' = manejar_error (s\<lparr>pila := Arbol cabecera' hs # p1\<rparr>) estado cabecera'"
    then show ?thesis by simp
  next
    fix g
    assume "s' = (if arbol s = None \<and> cabecera' = ''<programa>''
                  then s\<lparr>pila := Entero g # Arbol cabecera' hs # p1,
                         arbol := Some (Arbol cabecera' hs)\<rparr>
                  else s\<lparr>pila := Entero g # Arbol cabecera' hs # p1\<rparr>)"
    then have "pila s' = Entero g # Arbol cabecera' hs # p1" by (simp split: if_splits)
    then show ?thesis by blast
  qed
  then have "pila s' = Arbol cabecera hs # p1 \<or> (\<exists>g. pila s' = Entero g # Arbol cabecera hs # p1)"
    by (simp only: eq)
  with le length_segundos_take[OF le] 1(7,8) k show ?case by simp
qed

section \<open>The driver: the ends of a run, and its trace\<close>

lemma startswith_r_no_d: "startswith accion ''r'' \<Longrightarrow> \<not> startswith accion ''d''"
  by (cases accion) (auto simp: startswith_def)

lemma accept_no_dr: "\<not> startswith ''accept'' ''d'' \<and> \<not> startswith ''accept'' ''r''"
  by (simp add: startswith_def)

text \<open>
  Claim C5, amended. In a state without error in which the table gives an action \<open>r\<close>
  followed by the number 0, the driver appends the trace entry of that round and leaves
  by \<open>SystemExit\<close>, with stack, input and tree untouched; on the action \<open>accept\<close> it
  appends the entry and returns. The two ends differ in being an exit and a return.
\<close>

theorem regla_cero_sale:
  assumes "\<not> error_ocurrido s" and "obtener_estado_actual s = Inr estado"
    and "obtener_accion (tabla s) estado (token_actual s) = Inr accion"
  shows "(startswith accion ''r'' \<and> py_int (drop 1 accion) = Some 0 \<longrightarrow>
            iteracion s = Lanza SystemExit (anotar s accion) \<and>
            analizar s = Some (Aborta SystemExit (anotar s accion))) \<and>
         (accion = ''accept'' \<longrightarrow>
            iteracion s = Retorna (anotar s accion) \<and>
            analizar s = Some (Devuelve (anotar s accion)))"
proof (intro conjI impI)
  assume r: "startswith accion ''r'' \<and> py_int (drop 1 accion) = Some 0"
  with startswith_r_no_d[of accion] iteracion_accion[OF assms]
  show it: "iteracion s = Lanza SystemExit (anotar s accion)"
    by (simp add: reducir_def)
  then show "analizar s = Some (Aborta SystemExit (anotar s accion))"
    by (subst analizar.simps) simp
next
  assume a: "accion = ''accept''"
  with accept_no_dr iteracion_accion[OF assms]
  show it: "iteracion s = Retorna (anotar s accion)" by simp
  then show "analizar s = Some (Devuelve (anotar s accion))"
    by (subst analizar.simps) simp
qed


lemma desplazar_Lanza_salida:
  "desplazar s accion tok = Lanza e s' \<Longrightarrow> salida_proceso s' = salida_proceso s"
  by (auto simp: desplazar_def Let_def split: option.splits list.splits)

lemma tras_reducir_Lanza_salida:
  "tras_reducir s cab hs p1 = Lanza e s' \<Longrightarrow> salida_proceso s' = salida_proceso s"
  by (auto simp: tras_reducir_def split: sum.splits option.splits)

lemma reducir_Lanza_salida:
  assumes "reducir s accion = Lanza e s'"
  shows "salida_proceso s' = salida_proceso s"
proof (cases "py_int (drop 1 accion)")
  case None
  with assms show ?thesis by (simp add: reducir_def)
next
  case (Some n)
  show ?thesis
  proof (cases "n = 0")
    case True
    with Some assms show ?thesis by (simp add: reducir_def)
  next
    case n0: False
    show ?thesis
    proof (cases "obtener_regla n")
      case None
      with Some n0 assms show ?thesis by (simp add: reducir_def)
    next
      case (Some regla)
      note regla = Some
      show ?thesis
      proof (cases "\<exists>cabecera cuerpo. split_sep '' ::= '' regla = [cabecera, cuerpo]")
        case True
        then obtain cabecera cuerpo where sp: "split_sep '' ::= '' regla = [cabecera, cuerpo]"
          by blast
        note rr = reducir_regla[OF \<open>py_int (drop 1 accion) = Some n\<close> n0 regla sp, of s]
        from assms[unfolded rr] show ?thesis
          by (auto simp: Let_def split: if_splits dest: tras_reducir_Lanza_salida)
      next
        case False
        with \<open>py_int (drop 1 accion) = Some n\<close> n0 regla assms show ?thesis
          by (auto simp: reducir_def split: list.splits)
      qed
    qed
  qed
qed

text \<open>
  Claim C8, amended. Once the error flag is set, a round returns the state as it is. In a
  state without error in which the table gives the action \<open>accion\<close>, a round appends the
  entry of stack, input and \<open>accion\<close>, and nothing more when the loop goes on without
  error, when it returns on \<open>accept\<close>, and when an exception (that of rule 0 among them)
  leaves it; a round that ends in a syntax error (no action, or no goto after a reduction)
  appends a second entry, of stack, input and the error message, which is then the last one.
\<close>

theorem traza_por_paso:
  "(error_ocurrido s \<longrightarrow> iteracion s = Retorna s) \<and>
   (\<not> error_ocurrido s \<and> obtener_estado_actual s = Inr estado \<and>
    obtener_accion (tabla s) estado (token_actual s) = Inr accion \<longrightarrow>
      (\<forall>s'. iteracion s = Continua s' \<longrightarrow>
         (if error_ocurrido s'
          then \<exists>e cab. salida_proceso s' = salida_proceso s @
                 [(obtener_pila_como_cadena s, join '' '' (flujo_entrada s), accion),
                  (obtener_pila_como_cadena s', join '' '' (flujo_entrada s'),
                   mensaje_error e cab)]
          else salida_proceso s' = salida_proceso s @
                 [(obtener_pila_como_cadena s, join '' '' (flujo_entrada s), accion)])) \<and>
      (\<forall>s'. iteracion s = Retorna s' \<longrightarrow>
         (if accion = ''accept''
          then \<not> error_ocurrido s' \<and> salida_proceso s' = salida_proceso s @
                 [(obtener_pila_como_cadena s, join '' '' (flujo_entrada s), accion)]
          else error_ocurrido s' \<and> salida_proceso s' = salida_proceso s @
                 [(obtener_pila_como_cadena s, join '' '' (flujo_entrada s), accion),
                  (obtener_pila_como_cadena s', join '' '' (flujo_entrada s'),
                   mensaje_error estado (token_actual s))])) \<and>
      (\<forall>e s'. iteracion s = Lanza e s' \<longrightarrow>
         salida_proceso s' = salida_proceso s @
           [(obtener_pila_como_cadena s, join '' '' (flujo_entrada s), accion)]))"
proof (intro conjI impI allI)
  assume "error_ocurrido s"
  then show "iteracion s = Retorna s" by (rule iteracion_error)
next
  fix s'
  assume h: "\<not> error_ocurrido s \<and> obtener_estado_actual s = Inr estado \<and>
    obtener_accion (tabla s) estado (token_actual s) = Inr accion"
    and it: "iteracion s = Continua s'"
  from h have ne: "\<not> error_ocurrido s" by simp
  from h have ia: "iteracion s =
     (if startswith accion ''d'' then desplazar (anotar s accion) accion (token_actual s)
      else if startswith accion ''r'' then reducir (anotar s accion) accion
      else if accion = ''accept'' then Retorna (anotar s accion)
      else Retorna (manejar_error (anotar s accion) estado (token_actual s)))"
    by (intro iteracion_accion) simp_all
  show "if error_ocurrido s'
          then \<exists>e cab. salida_proceso s' = salida_proceso s @
                 [(obtener_pila_como_cadena s, join '' '' (flujo_entrada s), accion),
                  (obtener_pila_como_cadena s', join '' '' (flujo_entrada s'),
                   mensaje_error e cab)]
          else salida_proceso s' = salida_proceso s @
                 [(obtener_pila_como_cadena s, join '' '' (flujo_entrada s), accion)]"
  proof (cases "startswith accion ''d''")
    case True
    with ia it have "desplazar (anotar s accion) accion (token_actual s) = Continua s'" by simp
    from desplazar_Continua[OF this] ne show ?thesis by auto
  next
    case nd: False
    show ?thesis
    proof (cases "startswith accion ''r''")
      case True
      with nd ia it have red: "reducir (anotar s accion) accion = Continua s'" by simp
      show ?thesis
      proof (rule reducir_Continua[OF red], goal_cases)
        case (1 n regla cabecera cuerpo k estado' hs p1)
        from 1(10) show ?case
        proof (elim disjE conjE exE)
          assume s': "s' = manejar_error ((anotar s accion)\<lparr>pila := Arbol cabecera hs # p1\<rparr>)
                         estado' cabecera"
          have pc: "obtener_pila_como_cadena ((anotar s accion)\<lparr>pila := Arbol cabecera hs # p1\<rparr>)
              = obtener_pila_como_cadena s'"
            by (rule pila_como_cadena_pila) (simp add: s')
          have "salida_proceso s' = salida_proceso s @
                 [(obtener_pila_como_cadena s, join '' '' (flujo_entrada s), accion),
                  (obtener_pila_como_cadena s', join '' '' (flujo_entrada s'),
                   mensaje_error estado' cabecera)]"
            using pc[symmetric] by (simp add: s')
          moreover have "error_ocurrido s'" by (simp add: s')
          ultimately show ?thesis by auto
        next
          fix g
          assume "s' = (if arbol (anotar s accion) = None \<and> cabecera = ''<programa>''
                  then (anotar s accion)\<lparr>pila := Entero g # Arbol cabecera hs # p1,
                         arbol := Some (Arbol cabecera hs)\<rparr>
                  else (anotar s accion)\<lparr>pila := Entero g # Arbol cabecera hs # p1\<rparr>)"
          with ne show ?thesis by (simp split: if_splits)
        qed
      qed
    next
      case False
      with nd ia it show ?thesis by (simp split: if_splits)
    qed
  qed
next
  fix s'
  assume h: "\<not> error_ocurrido s \<and> obtener_estado_actual s = Inr estado \<and>
    obtener_accion (tabla s) estado (token_actual s) = Inr accion"
    and it: "iteracion s = Retorna s'"
  from h have ne: "\<not> error_ocurrido s" by simp
  from h have ia: "iteracion s =
     (if startswith accion ''d'' then desplazar (anotar s accion) accion (token_actual s)
      else if startswith accion ''r'' then reducir (anotar s accion) accion
      else if accion = ''accept'' then Retorna (anotar s accion)
      else Retorna (manejar_error (anotar s accion) estado (token_actual s)))"
    by (intro iteracion_accion) simp_all
  from ia it desplazar_no_Retorna[of "anotar s accion" accion "token_actual s" s']
    reducir_no_Retorna[of "anotar s accion" accion s']
  have c: "(accion = ''accept'' \<and> s' = anotar s accion) \<or>
           (accion \<noteq> ''accept'' \<and> s' = manejar_error (anotar s accion) estado (token_actual s))"
    by (auto split: if_splits)
  have pc: "obtener_pila_como_cadena (anotar s accion) = obtener_pila_como_cadena s"
    by (rule pila_como_cadena_pila) simp
  from c show "if accion = ''accept''
          then \<not> error_ocurrido s' \<and> salida_proceso s' = salida_proceso s @
                 [(obtener_pila_como_cadena s, join '' '' (flujo_entrada s), accion)]
          else error_ocurrido s' \<and> salida_proceso s' = salida_proceso s @
                 [(obtener_pila_como_cadena s, join '' '' (flujo_entrada s), accion),
                  (obtener_pila_como_cadena s', join '' '' (flujo_entrada s'),
                   mensaje_error estado (token_actual s))]"
  proof (elim disjE conjE)
    assume "accion = ''accept''" "s' = anotar s accion"
    with ne show ?thesis by simp
  next
    assume na: "accion \<noteq> ''accept''"
      and s': "s' = manejar_error (anotar s accion) estado (token_actual s)"
    have "obtener_pila_como_cadena s' = obtener_pila_como_cadena s"
      by (rule pila_como_cadena_pila) (simp add: s')
    with na pc show ?thesis by (simp add: s')
  qed
next
  fix e s'
  assume h: "\<not> error_ocurrido s \<and> obtener_estado_actual s = Inr estado \<and>
    obtener_accion (tabla s) estado (token_actual s) = Inr accion"
    and it: "iteracion s = Lanza e s'"
  from h have ia: "iteracion s =
     (if startswith accion ''d'' then desplazar (anotar s accion) accion (token_actual s)
      else if startswith accion ''r'' then reducir (anotar s accion) accion
      else if accion = ''accept'' then Retorna (anotar s accion)
      else Retorna (manejar_error (anotar s accion) estado (token_actual s)))"
    by (intro iteracion_accion) simp_all
  from it[unfolded ia] have "salida_proceso s' = salida_proceso (anotar s accion)"
    by (auto split: if_splits dest: desplazar_Lanza_salida reducir_Lanza_salida)
  then show "salida_proceso s' = salida_proceso s @
           [(obtener_pila_como_cadena s, join '' '' (flujo_entrada s), accion)]"
    by simp
qed


section \<open>The driver: the leaves of the tree\<close>

lemma cabecera_de_regla:
  assumes "obtener_regla n = Some regla" and "split_sep '' ::= '' regla = cab # resto"
  shows "cab \<in> set cabeceras"
proof -
  from assms(1) have "(n, regla) \<in> set reglas"
    by (simp add: obtener_regla_def map_of_SomeD)
  then have "(\<lambda>(numero, regla). hd (split_sep '' ::= '' regla)) (n, regla) \<in> set cabeceras"
    unfolding cabeceras_def set_map by (rule imageI)
  with assms(2) show ?thesis by simp
qed

lemma dolar_no_cabecera: "''$'' \<notin> set cabeceras"
  by code_simp

lemma hojas_token_Entero [simp]: "hojas_token (Entero e) = []"
  by (simp add: hojas_token_def)

lemma hojas_token_hoja: "v \<notin> set cabeceras \<Longrightarrow> hojas_token (Arbol v []) = [v]"
  by (simp add: hojas_token_def)

lemma hojas_token_nodo:
  assumes "cab \<in> set cabeceras"
  shows "hojas_token (Arbol cab hs) = concat (map hojas_token hs)"
proof (cases "hs = []")
  case True
  with assms show ?thesis by (simp add: hojas_token_def)
next
  case False
  have "filter (\<lambda>v. v \<notin> set cabeceras) (concat (map hojas hs)) = concat (map hojas_token hs)"
    by (induction hs) (simp_all add: hojas_token_def)
  with False show ?thesis by (simp add: hojas_token_def)
qed

lemma frente_Cons: "frente (x # p) = frente p @ hojas_token x"
  by (simp add: frente_def)

lemma frente_append: "frente (a @ b) = frente b @ frente a"
  by (simp add: frente_def)

lemma frente_take_alterna:
  "alterna p \<Longrightarrow> 2 * k \<le> length p \<Longrightarrow>
     frente (take (2 * k) p) = concat (map hojas_token (rev (segundos (take (2 * k) p))))"
proof (induction k arbitrary: p)
  case 0
  then show ?case by (simp add: frente_def)
next
  case (Suc k)
  from alterna_dos[OF Suc.prems(1)] Suc.prems(2) obtain e v hs p' where
    p: "p = Entero e # Arbol v hs # p'" "alterna p'" by auto
  with Suc.prems(2) have "2 * k \<le> length p'" by simp
  from Suc.IH[OF p(2) this] p(1) show ?case by (simp add: frente_Cons)
qed

lemma token_actual_Cons: "flujo_entrada s = t # resto \<Longrightarrow> token_actual s = t"
  by (simp add: token_actual_def)

lemma paso_frente:
  assumes a: "alterna (pila s)" and ne: "\<not> error_ocurrido s"
    and tk: "set (flujo_entrada s) \<inter> set cabeceras = {}"
    and it: "iteracion s = Continua s'" and ne': "\<not> error_ocurrido s'"
  shows "frente (pila s') @ flujo_entrada s' = frente (pila s) @ flujo_entrada s"
proof -
  from iteracion_casos[OF ne] it obtain estado accion where
    ea: "obtener_estado_actual s = Inr estado"
        "obtener_accion (tabla s) estado (token_actual s) = Inr accion" by auto
  note ia = iteracion_accion[OF ne ea]
  show ?thesis
  proof (cases "startswith accion ''d''")
    case True
    with it[unfolded ia] have
      "desplazar (anotar s accion) accion (token_actual s) = Continua s'" by simp
    from desplazar_Continua[OF this] obtain g t resto where
      f: "flujo_entrada s = t # resto" and
      s': "s' = (anotar s accion)\<lparr>pila := Entero g # Arbol (token_actual s) [] # pila s,
                  flujo_entrada := resto\<rparr>"
      by auto
    from f have ta: "token_actual s = t" by (rule token_actual_Cons)
    from f tk have "t \<notin> set cabeceras" by auto
    then have "hojas_token (Arbol t []) = [t]" by (rule hojas_token_hoja)
    with f ta show ?thesis by (simp add: s' frente_Cons)
  next
    case nd: False
    show ?thesis
    proof (cases "startswith accion ''r''")
      case True
      with nd it[unfolded ia] have red: "reducir (anotar s accion) accion = Continua s'" by simp
      show ?thesis
      proof (rule reducir_Continua[OF red], goal_cases)
        case (1 n regla cabecera cuerpo k estado' hs p1)
        from 1(6) have le: "2 * k \<le> length (pila s)" by simp
        from 1(7) have hs: "hs = rev (segundos (take (2 * k) (pila s)))" by simp
        from 1(8) have p1: "p1 = drop (2 * k) (pila s)" by simp
        from cabecera_de_regla[OF 1(3,4)] have "cabecera \<in> set cabeceras" .
        then have "hojas_token (Arbol cabecera hs) = concat (map hojas_token hs)"
          by (rule hojas_token_nodo)
        also have "\<dots> = frente (take (2 * k) (pila s))"
          using frente_take_alterna[OF a le] hs by simp
        finally have hn: "hojas_token (Arbol cabecera hs) = frente (take (2 * k) (pila s))" .
        have "frente (pila s) = frente (take (2 * k) (pila s) @ drop (2 * k) (pila s))"
          by simp
        also have "\<dots> = frente p1 @ frente (take (2 * k) (pila s))"
          by (simp only: frente_append p1)
        finally have fs: "frente (pila s) = frente p1 @ hojas_token (Arbol cabecera hs)"
          by (simp only: hn)
        from 1(10) show ?case
        proof (elim disjE conjE exE)
          assume "s' = manejar_error ((anotar s accion)\<lparr>pila := Arbol cabecera hs # p1\<rparr>)
                         estado' cabecera"
          with ne' show ?thesis by simp
        next
          fix g
          assume "s' = (if arbol (anotar s accion) = None \<and> cabecera = ''<programa>''
                  then (anotar s accion)\<lparr>pila := Entero g # Arbol cabecera hs # p1,
                         arbol := Some (Arbol cabecera hs)\<rparr>
                  else (anotar s accion)\<lparr>pila := Entero g # Arbol cabecera hs # p1\<rparr>)"
          then have "pila s' = Entero g # Arbol cabecera hs # p1"
            "flujo_entrada s' = flujo_entrada s"
            by (simp_all split: if_splits)
          with fs show ?thesis by (simp add: frente_Cons)
        qed
      qed
    next
      case False
      with nd it[unfolded ia] show ?thesis by (simp split: if_splits)
    qed
  qed
qed

lemma obtener_goto_Inl: "obtener_goto T estado nt = Inl e \<Longrightarrow> e = KeyError \<or> e = ValueError"
  by (auto simp: obtener_goto_def loc_def Let_def split: if_splits option.splits)

lemma tras_reducir_no_sale: "tras_reducir s cab hs p1 \<noteq> Lanza SystemExit s'"
proof
  assume h: "tras_reducir s cab hs p1 = Lanza SystemExit s'"
  show False
  proof (cases "primer_entero p1")
    case None
    with h show False by (simp add: tras_reducir_def obtener_estado_actual_def)
  next
    case (Some estado)
    show False
    proof (cases "obtener_goto (tabla s) estado cab")
      case (Inl e)
      with obtener_goto_Inl[OF Inl] Some h show False
        by (auto simp: tras_reducir_def obtener_estado_actual_def)
    next
      case (Inr og)
      with Some h show False
        by (cases og) (simp_all add: tras_reducir_def obtener_estado_actual_def)
    qed
  qed
qed

lemma reducir_sale:
  assumes "reducir s accion = Lanza SystemExit s'"
  shows "s' = s"
proof (cases "py_int (drop 1 accion)")
  case None
  with assms show ?thesis by (simp add: reducir_def)
next
  case (Some n)
  show ?thesis
  proof (cases "n = 0")
    case True
    with Some assms show ?thesis by (simp add: reducir_def)
  next
    case n0: False
    show ?thesis
    proof (cases "obtener_regla n")
      case None
      with Some n0 assms show ?thesis by (simp add: reducir_def)
    next
      case (Some regla)
      note regla = Some
      show ?thesis
      proof (cases "\<exists>cabecera cuerpo. split_sep '' ::= '' regla = [cabecera, cuerpo]")
        case True
        then obtain cabecera cuerpo where sp: "split_sep '' ::= '' regla = [cabecera, cuerpo]"
          by blast
        note rr = reducir_regla[OF \<open>py_int (drop 1 accion) = Some n\<close> n0 regla sp, of s]
        from assms[unfolded rr] show ?thesis
          by (auto simp: Let_def tras_reducir_no_sale split: if_splits)
      next
        case False
        with \<open>py_int (drop 1 accion) = Some n\<close> n0 regla assms show ?thesis
          by (auto simp: reducir_def split: list.splits)
      qed
    qed
  qed
qed

lemma desplazar_no_sale: "desplazar s accion tok \<noteq> Lanza SystemExit s'"
  by (auto simp: desplazar_def Let_def split: option.splits list.splits)

lemma paso_sale:
  assumes ne: "\<not> error_ocurrido s" and it: "iteracion s = Lanza SystemExit s'"
  shows "pila s' = pila s \<and> flujo_entrada s' = flujo_entrada s \<and> arbol s' = arbol s"
proof (cases "obtener_estado_actual s")
  case (Inl e)
  with ne it show ?thesis by (simp add: iteracion_def)
next
  case (Inr estado)
  show ?thesis
  proof (cases "obtener_accion (tabla s) estado (token_actual s)")
    case (Inl e)
    with Inr ne it show ?thesis by (simp add: iteracion_def Let_def)
  next
    case acc: (Inr accion)
    note ia = iteracion_accion[OF ne Inr acc]
    from it[unfolded ia] have "s' = anotar s accion"
      by (auto simp: desplazar_no_sale split: if_splits dest: reducir_sale)
    then show ?thesis by simp
  qed
qed

lemma programa_cabecera: "''<programa>'' \<in> set cabeceras"
  by code_simp

lemma valor_subarbol:
  "r \<in> set (subarboles t) \<Longrightarrow> valor r \<in> set (etiquetas t)"
proof (induction t)
  case (Entero e)
  then show ?case by simp
next
  case (Arbol v hs)
  from Arbol.prems have "r = Arbol v hs \<or> (\<exists>h \<in> set hs. r \<in> set (subarboles h))"
    by auto
  then show ?case
  proof
    assume "r = Arbol v hs"
    then show ?thesis by simp
  next
    assume "\<exists>h \<in> set hs. r \<in> set (subarboles h)"
    then obtain h where h: "h \<in> set hs" "r \<in> set (subarboles h)" by blast
    from Arbol.IH[OF h] h(1) show ?thesis by auto
  qed
qed

lemma alterna_take_nodos:
  assumes f: "\<And>e. f (Entero e) = []"
  shows "alterna p \<Longrightarrow> 2 * k \<le> length p \<Longrightarrow>
     set (concat (map f (take (2 * k) p)))
       = set (concat (map f (rev (segundos (take (2 * k) p)))))"
proof (induction k arbitrary: p)
  case 0
  then show ?case by simp
next
  case (Suc k)
  from alterna_dos[OF Suc.prems(1)] Suc.prems(2) obtain e v hs p' where
    p: "p = Entero e # Arbol v hs # p'" "alterna p'" by auto
  with Suc.prems(2) have "2 * k \<le> length p'" by simp
  from Suc.IH[OF p(2) this] p(1) f show ?case by auto
qed

lemma pila_partes:
  "set (concat (map f p)) = set (concat (map f (take n p))) \<union> set (concat (map f (drop n p)))"
proof -
  have "set (concat (map f p)) = set (concat (map f (take n p @ drop n p)))" by simp
  also have "\<dots> = set (concat (map f (take n p))) \<union> set (concat (map f (drop n p)))"
    by (simp only: map_append concat_append set_append)
  finally show ?thesis .
qed

lemma registro_campos:
  "arbol a = arbol b \<Longrightarrow> pila a = pila b \<Longrightarrow> registro a = registro b"
  by (cases "arbol b") (simp_all add: registro_def)

lemma paso_registro:
  assumes a: "alterna (pila s)" and ne: "\<not> error_ocurrido s"
    and tk: "set (flujo_entrada s) \<inter> set cabeceras = {}"
    and it: "iteracion s = Continua s'" and ne': "\<not> error_ocurrido s'"
    and reg: "registro s"
  shows "registro s'"
proof -
  from iteracion_casos[OF ne] it obtain estado accion where
    ea: "obtener_estado_actual s = Inr estado"
        "obtener_accion (tabla s) estado (token_actual s) = Inr accion" by auto
  note ia = iteracion_accion[OF ne ea]
  show ?thesis
  proof (cases "startswith accion ''d''")
    case True
    with it[unfolded ia] have
      "desplazar (anotar s accion) accion (token_actual s) = Continua s'" by simp
    from desplazar_Continua[OF this] obtain g t resto where
      f: "flujo_entrada s = t # resto" and
      s': "s' = (anotar s accion)\<lparr>pila := Entero g # Arbol (token_actual s) [] # pila s,
                  flujo_entrada := resto\<rparr>"
      by auto
    from f have ta: "token_actual s = t" by (rule token_actual_Cons)
    from f tk have "t \<notin> set cabeceras" by auto
    with programa_cabecera have tp: "t \<noteq> ''<programa>''" by auto
    from reg tp ta show ?thesis
      by (auto simp: registro_def s' split: option.splits)
  next
    case nd: False
    show ?thesis
    proof (cases "startswith accion ''r''")
      case True
      with nd it[unfolded ia] have red: "reducir (anotar s accion) accion = Continua s'" by simp
      show ?thesis
      proof (rule reducir_Continua[OF red], goal_cases)
        case (1 n regla cabecera cuerpo k estado' hs p1)
        from 1(6) have le: "2 * k \<le> length (pila s)" by simp
        from 1(7) have hs: "hs = rev (segundos (take (2 * k) (pila s)))" by simp
        from 1(8) have p1: "p1 = drop (2 * k) (pila s)" by simp
        have et: "set (concat (map etiquetas (pila s)))
            = set (concat (map etiquetas hs)) \<union> set (concat (map etiquetas p1))"
          using pila_partes[of etiquetas "pila s" "2 * k"]
            alterna_take_nodos[of etiquetas, OF _ a le] by (simp add: hs p1)
        have su: "set (concat (map subarboles (pila s)))
            = set (concat (map subarboles hs)) \<union> set (concat (map subarboles p1))"
          using pila_partes[of subarboles "pila s" "2 * k"]
            alterna_take_nodos[of subarboles, OF _ a le] by (simp add: hs p1)
        from 1(10) show ?case
        proof (elim disjE conjE exE)
          assume "s' = manejar_error ((anotar s accion)\<lparr>pila := Arbol cabecera hs # p1\<rparr>)
                         estado' cabecera"
          with ne' show ?thesis by simp
        next
          fix g
          assume s': "s' = (if arbol (anotar s accion) = None \<and> cabecera = ''<programa>''
                  then (anotar s accion)\<lparr>pila := Entero g # Arbol cabecera hs # p1,
                         arbol := Some (Arbol cabecera hs)\<rparr>
                  else (anotar s accion)\<lparr>pila := Entero g # Arbol cabecera hs # p1\<rparr>)"
          show ?thesis
          proof (cases "arbol s")
            case None
            show ?thesis
            proof (cases "cabecera = ''<programa>''")
              case True
              with None s' show ?thesis by (simp add: registro_def)
            next
              case False
              with None s' reg et show ?thesis by (auto simp: registro_def)
            qed
          next
            case (Some r)
            with s' reg su show ?thesis by (auto simp: registro_def)
          qed
        qed
      qed
    next
      case False
      with nd it[unfolded ia] show ?thesis by (simp split: if_splits)
    qed
  qed
qed


text \<open>
  Claim C1, amended. Let a run on tokens followed by \<open>$\<close> end by an accept or by rule 0,
  no token being named like a left-hand side of a rule. Then the token leaves of the nodes
  on the final stack, from the base to the top and left to right, followed by the input
  that is left, are the tokens followed by \<open>$\<close>; the recorded tree, if any, is a subtree,
  labelled \<open><programa>\<close>, of a node on the final stack, and if none is recorded no node of
  the stack is labelled \<open><programa>\<close>. So when \<open>$\<close> alone is left and the final stack is
  one node between two states, labelled \<open><programa>\<close> with no node below it labelled so,
  that node is the recorded tree, and its leaves other than the childless nodes of empty
  productions are exactly the tokens.
\<close>

theorem hojas_token_entrada:
  assumes run: "analizar (con_entrada T (tokens @ [''$''])) = Some f"
    and acc: "(f = Devuelve s \<and> \<not> error_ocurrido s) \<or> f = Aborta SystemExit s"
    and tk: "set tokens \<inter> set cabeceras = {}"
  shows "frente (pila s) @ flujo_entrada s = tokens @ [''$''] \<and> registro s \<and>
         (\<forall>g hs e0. pila s = [Entero g, Arbol ''<programa>'' hs, Entero e0] \<and>
            ''<programa>'' \<notin> set (concat (map etiquetas hs)) \<and>
            flujo_entrada s = [''$''] \<longrightarrow>
              arbol s = Some (Arbol ''<programa>'' hs) \<and>
              hojas_token (Arbol ''<programa>'' hs) = tokens)"
proof -
  let ?ent = "tokens @ [''$'']"
  let ?s0 = "con_entrada T ?ent"
  let ?P = "\<lambda>a. \<not> error_ocurrido a \<longrightarrow>
              alterna (pila a) \<and> frente (pila a) @ flujo_entrada a = ?ent \<and> registro a"
  from tk dolar_no_cabecera have tke: "set ?ent \<inter> set cabeceras = {}" by simp
  have p0: "?P ?s0"
    by (simp add: con_entrada_def AnalizadorLR_def push_def frente_def registro_def)
  have paso: "?P b" if pa: "?P a" and it: "iteracion a = Continua b" for a b
  proof
    assume neb: "\<not> error_ocurrido b"
    from it have nea: "\<not> error_ocurrido a" by (auto simp: iteracion_error)
    with pa have aa: "alterna (pila a)" and fa: "frente (pila a) @ flujo_entrada a = ?ent"
      and ra: "registro a"
      by simp_all
    have "set (flujo_entrada a) \<subseteq> set (frente (pila a) @ flujo_entrada a)" by simp
    with fa have "set (flujo_entrada a) \<subseteq> set ?ent" by (simp only:)
    with tke have tka: "set (flujo_entrada a) \<inter> set cabeceras = {}" by blast
    from paso_alterna[OF aa nea it] neb have "alterna (pila b)" by simp
    moreover from paso_frente[OF aa nea tka it neb] fa
    have "frente (pila b) @ flujo_entrada b = ?ent" by simp
    moreover from paso_registro[OF aa nea tka it neb ra] have "registro b" .
    ultimately show "alterna (pila b) \<and> frente (pila b) @ flujo_entrada b = ?ent \<and> registro b"
      by simp
  qed
  have "\<exists>a. ?P a \<and> (case f of Devuelve b \<Rightarrow> iteracion a = Retorna b
                            | Aborta e b \<Rightarrow> iteracion a = Lanza e b)"
    using run p0 paso by (rule analizar_final[where P = ?P])
  then obtain a where
    pa: "?P a" and fin: "case f of Devuelve b \<Rightarrow> iteracion a = Retorna b
                            | Aborta e b \<Rightarrow> iteracion a = Lanza e b"
    by blast
  have fr: "frente (pila s) @ flujo_entrada s = ?ent \<and> registro s"
    using acc
  proof
    assume h: "f = Devuelve s \<and> \<not> error_ocurrido s"
    with fin have it: "iteracion a = Retorna s" by simp
    have nea: "\<not> error_ocurrido a"
    proof
      assume "error_ocurrido a"
      with it have "s = a" by (simp add: iteracion_error)
      with h \<open>error_ocurrido a\<close> show False by simp
    qed
    from paso_retorna[OF nea it] have eq: "pila s = pila a" "flujo_entrada s = flujo_entrada a"
      "arbol s = arbol a" by simp_all
    from registro_campos[OF eq(3,1)] eq pa nea show ?thesis by simp
  next
    assume h: "f = Aborta SystemExit s"
    with fin have it: "iteracion a = Lanza SystemExit s" by simp
    then have nea: "\<not> error_ocurrido a" by (auto simp: iteracion_error)
    from paso_sale[OF nea it] have eq: "pila s = pila a" "flujo_entrada s = flujo_entrada a"
      "arbol s = arbol a" by simp_all
    from registro_campos[OF eq(3,1)] eq pa nea show ?thesis by simp
  qed
  show ?thesis
  proof (intro conjI allI impI)
    show "frente (pila s) @ flujo_entrada s = ?ent" using fr by simp
  next
    show "registro s" using fr by simp
  next
    fix g hs e0
    assume h: "pila s = [Entero g, Arbol ''<programa>'' hs, Entero e0] \<and>
            ''<programa>'' \<notin> set (concat (map etiquetas hs)) \<and>
            flujo_entrada s = [''$'']"
    from fr have reg: "registro s" by simp
    show "arbol s = Some (Arbol ''<programa>'' hs)"
    proof (cases "arbol s")
      case None
      with reg h show ?thesis by (simp add: registro_def)
    next
      case (Some r)
      with reg h have v: "valor r = ''<programa>''"
        and m: "r = Arbol ''<programa>'' hs \<or> (\<exists>x \<in> set hs. r \<in> set (subarboles x))"
        by (auto simp: registro_def)
      from m have "r = Arbol ''<programa>'' hs"
      proof
        assume "r = Arbol ''<programa>'' hs"
        then show ?thesis .
      next
        assume "\<exists>x \<in> set hs. r \<in> set (subarboles x)"
        then obtain x where x: "x \<in> set hs" "r \<in> set (subarboles x)" by blast
        from valor_subarbol[OF x(2)] v x(1) have
          "''<programa>'' \<in> set (concat (map etiquetas hs))" by auto
        with h show ?thesis by simp
      qed
      with Some show ?thesis by simp
    qed
  next
    fix g hs e0
    assume h: "pila s = [Entero g, Arbol ''<programa>'' hs, Entero e0] \<and>
            ''<programa>'' \<notin> set (concat (map etiquetas hs)) \<and>
            flujo_entrada s = [''$'']"
    with fr show "hojas_token (Arbol ''<programa>'' hs) = tokens" by (simp add: frente_def)
  qed
qed

section \<open>Concrete runs\<close>

lemma ejecucion_defvar:
  "analizar (con_entrada tabla_defvar ([''tipo'', ''identificador'', '';''] @ [''$'']))
     = Some (Devuelve estado_defvar)"
  by code_simp

lemma iteracion_sin_goto:
  "iteracion (con_entrada tabla_sin_goto [''$'']) = Continua estado_goto_fallido"
  by code_simp

lemma reducir_sin_goto:
  "reducir (anotar (con_entrada tabla_sin_goto [''$'']) ''r2'') ''r2''
     = Continua estado_goto_fallido"
  by code_simp

lemma iteracion_sin_accion:
  "iteracion (con_entrada tabla_sin_goto [''identificador'', ''$'']) = Retorna estado_sin_accion"
  by code_simp

lemma reducir_r6: "reducir estado_antes_r6 ''r6'' = Continua estado_tras_r6"
  by code_simp

text \<open>
  Against claim C1 as stated, on three accepted runs. With a table that accepts with the
  input unread, the recorded tree has no token among its leaves while the token \<open>;\<close> was
  given. With the same table, on \<open>identificador\<close>, only \<open>$\<close> is left and the final stack
  is one node between two states, but the recorded tree is an earlier node inside it, again
  without the token. With the table built from the grammar, on the empty source, the tree
  has a leaf, the childless node of the empty production, and there is no token.
\<close>

theorem hojas_del_arbol_y_entrada:
  "analizar (con_entrada tabla_errada ['';'', ''$'']) = Some (Devuelve estado_sin_leer) \<and>
   \<not> error_ocurrido estado_sin_leer \<and> arbol estado_sin_leer = Some arbol_vacio \<and>
   flujo_entrada estado_sin_leer = ['';'', ''$''] \<and>
   hojas arbol_vacio = [''<Definiciones>''] \<and> hojas_token arbol_vacio = [] \<and>
   hojas arbol_vacio \<noteq> ['';''] \<and> hojas_token arbol_vacio \<noteq> ['';''] \<and>
   analizar (con_entrada tabla_errada [''identificador'', ''$''])
     = Some (Devuelve estado_anidado) \<and>
   \<not> error_ocurrido estado_anidado \<and> arbol estado_anidado = Some arbol_vacio \<and>
   pila estado_anidado = [Entero 2, arbol_anidado, Entero 0] \<and>
   flujo_entrada estado_anidado = [''$''] \<and>
   hojas arbol_vacio \<noteq> [''identificador''] \<and> hojas_token arbol_vacio \<noteq> [''identificador''] \<and>
   analizar (con_entrada tabla_defvar [''$'']) = Some (Devuelve estado_vacio) \<and>
   \<not> error_ocurrido estado_vacio \<and> arbol estado_vacio = Some arbol_vacio \<and>
   hojas arbol_vacio \<noteq> []"
  by code_simp

text \<open>
  Against claim C2 as stated: the goto lookup for state 0 and \<open><Definiciones>\<close> gives
  none, and the reduction has pushed the new node on the stack.
\<close>

theorem goto_fallido_apila_nodo:
  "reducir (anotar (con_entrada tabla_sin_goto [''$'']) ''r2'') ''r2''
     = Continua estado_goto_fallido \<and>
   obtener_goto tabla_sin_goto 0 ''<Definiciones>'' = Inr None \<and>
   pila (anotar (con_entrada tabla_sin_goto [''$'']) ''r2'') = [Entero 0] \<and>
   pila estado_goto_fallido = [Arbol ''<Definiciones>'' [], Entero 0]"
  by code_simp

text \<open>
  Against claim C4 as stated: the run ends in the error state with a node, not a state, on
  top of the stack.
\<close>

theorem pila_tras_goto_fallido:
  "analizar (con_entrada tabla_sin_goto [''$'']) = Some (Devuelve estado_goto_fallido) \<and>
   error_ocurrido estado_goto_fallido \<and>
   hd (pila estado_goto_fallido) = Arbol ''<Definiciones>'' [] \<and>
   \<not> alterna (pila estado_goto_fallido)"
  by code_simp

text \<open>
  Against claim C5 as stated: on the action \<open>r0\<close> the run does not return; it ends by
  \<open>SystemExit\<close>.
\<close>

theorem regla_cero_es_salida:
  "analizar (con_entrada tabla_regla_cero [''$''])
     = Some (Aborta SystemExit estado_regla_cero) \<and>
   analizar (con_entrada tabla_regla_cero [''$'']) \<noteq> Some (Devuelve estado_regla_cero)"
  by code_simp

text \<open>
  Against claim C8 as stated: a single round, on a token for which the table has no
  action, appends two entries to an empty trace.
\<close>

theorem error_dos_entradas:
  "iteracion (con_entrada tabla_sin_goto [''identificador'', ''$''])
     = Retorna estado_sin_accion \<and>
   salida_proceso (con_entrada tabla_sin_goto [''identificador'', ''$'']) = [] \<and>
   length (salida_proceso estado_sin_accion) = 2"
  by code_simp

section \<open>The theorems on concrete runs\<close>

text \<open>The accepted run on \<open>tipo identificador ; $\<close>, for claim C1 as amended.\<close>

theorem hojas_token_entrada_witness:
  "set [''tipo'', ''identificador'', '';''] \<inter> set cabeceras = {} \<and>
   \<not> error_ocurrido estado_defvar \<and>
   frente (pila estado_defvar) @ flujo_entrada estado_defvar
     = [''tipo'', ''identificador'', '';''] @ [''$''] \<and>
   registro estado_defvar \<and>
   pila estado_defvar = [Entero 1, arbol_defvar, Entero 0] \<and>
   flujo_entrada estado_defvar = [''$''] \<and>
   arbol estado_defvar = Some arbol_defvar \<and>
   hojas_token arbol_defvar = [''tipo'', ''identificador'', '';'']"
proof -
  let ?hs = "[Arbol ''<Definiciones>''
        [Arbol ''<Definicion>''
          [Arbol ''<DefVar>''
            [Arbol ''tipo'' [], Arbol ''identificador'' [], Arbol ''<ListaVar>'' [],
             Arbol '';'' []]],
         Arbol ''<Definiciones>'' []]]"
  have tk: "set [''tipo'', ''identificador'', '';''] \<inter> set cabeceras = {}" by code_simp
  have ne: "\<not> error_ocurrido estado_defvar" by (simp add: estado_defvar_def)
  then have acc: "(Devuelve estado_defvar = Devuelve estado_defvar \<and> \<not> error_ocurrido estado_defvar)
      \<or> Devuelve estado_defvar = Aborta SystemExit estado_defvar" by simp
  note th = hojas_token_entrada[OF ejecucion_defvar acc tk]
  have ad: "arbol_defvar = Arbol ''<programa>'' ?hs" by (simp add: arbol_defvar_def)
  have fin: "pila estado_defvar = [Entero 1, Arbol ''<programa>'' ?hs, Entero 0] \<and>
      ''<programa>'' \<notin> set (concat (map etiquetas ?hs)) \<and>
      flujo_entrada estado_defvar = [''$'']"
    by (simp add: estado_defvar_def arbol_defvar_def)
  from th fin have c: "arbol estado_defvar = Some (Arbol ''<programa>'' ?hs) \<and>
      hojas_token (Arbol ''<programa>'' ?hs) = [''tipo'', ''identificador'', '';'']"
    by blast
  from th have g: "frente (pila estado_defvar) @ flujo_entrada estado_defvar
     = [''tipo'', ''identificador'', '';''] @ [''$'']" "registro estado_defvar" by simp_all
  from tk ne g c fin show ?thesis by (simp only: ad) simp
qed

text \<open>The reduction by rule 2 in a table without the goto, for claim C2 as amended.\<close>

theorem reducir_goto_witness:
  "\<exists>cabecera hs k estado.
     primer_entero (drop (2 * k) (pila (anotar (con_entrada tabla_sin_goto [''$'']) ''r2'')))
       = Some estado \<and>
     obtener_goto tabla_sin_goto estado cabecera = Inr None \<and>
     pila estado_goto_fallido = Arbol cabecera hs # [Entero 0] \<and>
     error_ocurrido estado_goto_fallido \<and>
     last (salida_proceso estado_goto_fallido)
       = (''0 <Definiciones>'', ''$'', mensaje_error estado cabecera) \<and>
     analizar estado_goto_fallido = Some (Devuelve estado_goto_fallido)"
proof -
  from reducir_goto[OF reducir_sin_goto] obtain cabecera hs k estado where
    e: "primer_entero (drop (2 * k) (pila (anotar (con_entrada tabla_sin_goto [''$'']) ''r2'')))
          = Some estado" and
    c: "case obtener_goto (tabla (anotar (con_entrada tabla_sin_goto [''$'']) ''r2'')) estado cabecera of
        Inl e \<Rightarrow> False
      | Inr None \<Rightarrow>
          pila estado_goto_fallido = Arbol cabecera hs # drop (2 * k) (pila (anotar (con_entrada tabla_sin_goto [''$'']) ''r2'')) \<and>
          error_ocurrido estado_goto_fallido \<and>
          salida_proceso estado_goto_fallido = salida_proceso (anotar (con_entrada tabla_sin_goto [''$'']) ''r2'') @
            [(obtener_pila_como_cadena estado_goto_fallido, join '' '' (flujo_entrada (anotar (con_entrada tabla_sin_goto [''$'']) ''r2'')),
              mensaje_error estado cabecera)] \<and>
          flujo_entrada estado_goto_fallido = flujo_entrada (anotar (con_entrada tabla_sin_goto [''$'']) ''r2'') \<and> arbol estado_goto_fallido = arbol (anotar (con_entrada tabla_sin_goto [''$'']) ''r2'') \<and>
          iteracion estado_goto_fallido = Retorna estado_goto_fallido \<and> analizar estado_goto_fallido = Some (Devuelve estado_goto_fallido)
      | Inr (Some g) \<Rightarrow>
          pila estado_goto_fallido = Entero g # Arbol cabecera hs # drop (2 * k) (pila (anotar (con_entrada tabla_sin_goto [''$'']) ''r2'')) \<and>
          error_ocurrido estado_goto_fallido = error_ocurrido (anotar (con_entrada tabla_sin_goto [''$'']) ''r2'') \<and>
          salida_proceso estado_goto_fallido = salida_proceso (anotar (con_entrada tabla_sin_goto [''$'']) ''r2'') \<and> flujo_entrada estado_goto_fallido = flujo_entrada (anotar (con_entrada tabla_sin_goto [''$'']) ''r2'')"
    by blast
  have p: "pila (anotar (con_entrada tabla_sin_goto [''$'']) ''r2'') = [Entero 0]"
    "tabla (anotar (con_entrada tabla_sin_goto [''$'']) ''r2'') = tabla_sin_goto"
    "error_ocurrido (anotar (con_entrada tabla_sin_goto [''$'']) ''r2'') = False"
    "error_ocurrido estado_goto_fallido"
    "pila estado_goto_fallido = [Arbol ''<Definiciones>'' [], Entero 0]"
    by (simp_all add: con_entrada_def AnalizadorLR_def push_def estado_goto_fallido_def)
  have sal: "salida_proceso (anotar (con_entrada tabla_sin_goto [''$'']) ''r2'') = [(''0'', ''$'', ''r2'')]"
    "obtener_pila_como_cadena estado_goto_fallido = ''0 <Definiciones>''"
    "join '' '' (flujo_entrada (anotar (con_entrada tabla_sin_goto [''$'']) ''r2'')) = ''$''"
    by code_simp+
  show ?thesis
  proof (cases "obtener_goto tabla_sin_goto estado cabecera")
    case (Inl x)
    with c p show ?thesis by simp
  next
    case (Inr og)
    show ?thesis
    proof (cases og)
      case None
      with Inr c p sal e show ?thesis by (intro exI[of _ cabecera] exI[of _ hs] exI[of _ k] exI[of _ estado]) simp
    next
      case (Some g)
      with Inr c p show ?thesis by simp
    qed
  qed
qed


text \<open>The reduction by rule 6, whose right-hand side has four symbols, for claim C3.\<close>

theorem reducir_desapila_witness:
  "2 * 4 \<le> length (pila estado_antes_r6) \<and>
   pila estado_tras_r6 =
     [Entero 5,
      Arbol ''<DefVar>''
        [Arbol ''tipo'' [], Arbol ''identificador'' [], Arbol ''<ListaVar>'' [], Arbol '';'' []],
      Entero 0] \<and>
   drop (2 * 4) (pila estado_antes_r6) = [Entero 0]"
proof -
  have h2: "py_int (drop 1 ''r6'') = Some 6" by code_simp
  have h3: "obtener_regla 6 = Some ''<DefVar> ::= tipo identificador <ListaVar> ;''"
    by code_simp
  have h4: "split_sep '' ::= '' ''<DefVar> ::= tipo identificador <ListaVar> ;''
      = [''<DefVar>'', ''tipo identificador <ListaVar> ;'']" by code_simp
  have h5: "(4::nat) = (if strip ''tipo identificador <ListaVar> ;'' = cuerpo_vacio then 0
      else length (split (strip ''tipo identificador <ListaVar> ;'')))" by code_simp
  note th = reducir_desapila[OF reducir_r6 h2 h3 h4 h5]
  have "pila estado_tras_r6 =
     [Entero 5,
      Arbol ''<DefVar>''
        [Arbol ''tipo'' [], Arbol ''identificador'' [], Arbol ''<ListaVar>'' [], Arbol '';'' []],
      Entero 0]" by (simp add: estado_tras_r6_def)
  moreover have "drop (2 * 4) (pila estado_antes_r6) = [Entero 0]"
    by (simp add: estado_antes_r6_def)
  ultimately show ?thesis using th by blast
qed

text \<open>The first round of the run that ends in a goto failure, for claim C4 as amended.\<close>

theorem pila_alterna_witness:
  "pila (con_entrada tabla_sin_goto [''$'']) = [Entero 0] \<and>
   \<not> error_ocurrido (con_entrada tabla_sin_goto [''$'']) \<and>
   alterna (pila (con_entrada tabla_sin_goto [''$''])) \<and>
   iteracion (con_entrada tabla_sin_goto [''$'']) = Continua estado_goto_fallido \<and>
   error_ocurrido estado_goto_fallido \<and>
   nodo_sobre_alterna (pila estado_goto_fallido)"
proof -
  have al: "alcanza (con_entrada tabla_sin_goto [''$'']) (con_entrada tabla_sin_goto [''$''])"
    by (rule alcanza_inicio)
  have ne: "\<not> error_ocurrido (con_entrada tabla_sin_goto [''$''])"
    by (simp add: con_entrada_def AnalizadorLR_def)
  have e: "error_ocurrido estado_goto_fallido" by (simp add: estado_goto_fallido_def)
  note th = pila_alterna[OF al]
  from th ne have c: "pila (con_entrada tabla_sin_goto [''$'']) = [Entero 0]"
    "alterna (pila (con_entrada tabla_sin_goto [''$'']))"
    "\<forall>s'. iteracion (con_entrada tabla_sin_goto [''$'']) = Continua s' \<longrightarrow>
       (if error_ocurrido s' then nodo_sobre_alterna (pila s') else alterna (pila s'))"
    by simp_all
  from c(3) iteracion_sin_goto e have "nodo_sobre_alterna (pila estado_goto_fallido)"
    by (auto simp del: nodo_sobre_alterna.simps)
  with c(1,2) ne iteracion_sin_goto e show ?thesis by blast
qed

text \<open>A table whose action is \<open>r0\<close> and one whose action is \<open>accept\<close>, for claim C5 as amended.\<close>

theorem regla_cero_sale_witness:
  "analizar (con_entrada tabla_regla_cero [''$''])
     = Some (Aborta SystemExit (anotar (con_entrada tabla_regla_cero [''$'']) ''r0'')) \<and>
   analizar (con_entrada tabla_acepta [''$''])
     = Some (Devuelve (anotar (con_entrada tabla_acepta [''$'']) ''accept''))"
proof -
  have a1: "\<not> error_ocurrido (con_entrada tabla_regla_cero [''$''])"
    "obtener_estado_actual (con_entrada tabla_regla_cero [''$'']) = Inr 0"
    "obtener_accion (tabla (con_entrada tabla_regla_cero [''$''])) 0
       (token_actual (con_entrada tabla_regla_cero [''$''])) = Inr ''r0''"
    by code_simp+
  have r: "startswith ''r0'' ''r'' \<and> py_int (drop 1 ''r0'') = Some 0" by code_simp
  have a2: "\<not> error_ocurrido (con_entrada tabla_acepta [''$''])"
    "obtener_estado_actual (con_entrada tabla_acepta [''$'']) = Inr 0"
    "obtener_accion (tabla (con_entrada tabla_acepta [''$''])) 0
       (token_actual (con_entrada tabla_acepta [''$''])) = Inr ''accept''"
    by code_simp+
  from regla_cero_sale[OF a1] r have
    "analizar (con_entrada tabla_regla_cero [''$''])
     = Some (Aborta SystemExit (anotar (con_entrada tabla_regla_cero [''$'']) ''r0''))"
    by blast
  moreover from regla_cero_sale[OF a2] have
    "analizar (con_entrada tabla_acepta [''$''])
     = Some (Devuelve (anotar (con_entrada tabla_acepta [''$'']) ''accept''))"
    by blast
  ultimately show ?thesis by blast
qed

text \<open>
  A round that finds no action, and the round after it, for claim C8 as amended.
\<close>

theorem traza_por_paso_witness:
  "iteracion (con_entrada tabla_sin_goto [''identificador'', ''$'']) = Retorna estado_sin_accion \<and>
   salida_proceso estado_sin_accion =
     salida_proceso (con_entrada tabla_sin_goto [''identificador'', ''$'']) @
       [(obtener_pila_como_cadena (con_entrada tabla_sin_goto [''identificador'', ''$'']),
         join '' '' (flujo_entrada (con_entrada tabla_sin_goto [''identificador'', ''$''])),
         ''error''),
        (obtener_pila_como_cadena estado_sin_accion,
         join '' '' (flujo_entrada estado_sin_accion),
         mensaje_error 0 (token_actual (con_entrada tabla_sin_goto [''identificador'', ''$''])))] \<and>
   error_ocurrido estado_sin_accion \<and>
   iteracion estado_sin_accion = Retorna estado_sin_accion"
proof -
  let ?s = "con_entrada tabla_sin_goto [''identificador'', ''$'']"
  have a: "\<not> error_ocurrido ?s \<and> obtener_estado_actual ?s = Inr 0 \<and>
    obtener_accion (tabla ?s) 0 (token_actual ?s) = Inr ''error''"
    by code_simp
  have na: "''error'' \<noteq> ''accept''" by simp
  note th = traza_por_paso[of ?s 0 "''error''"]
  from th a have "\<forall>s'. iteracion ?s = Retorna s' \<longrightarrow>
         (if ''error'' = ''accept''
          then \<not> error_ocurrido s' \<and> salida_proceso s' = salida_proceso ?s @
                 [(obtener_pila_como_cadena ?s, join '' '' (flujo_entrada ?s), ''error'')]
          else error_ocurrido s' \<and> salida_proceso s' = salida_proceso ?s @
                 [(obtener_pila_como_cadena ?s, join '' '' (flujo_entrada ?s), ''error''),
                  (obtener_pila_como_cadena s', join '' '' (flujo_entrada s'),
                   mensaje_error 0 (token_actual ?s))])"
    by blast
  with iteracion_sin_accion have c: "error_ocurrido estado_sin_accion \<and>
      salida_proceso estado_sin_accion = salida_proceso ?s @
                 [(obtener_pila_como_cadena ?s, join '' '' (flujo_entrada ?s), ''error''),
                  (obtener_pila_como_cadena estado_sin_accion,
                   join '' '' (flujo_entrada estado_sin_accion),
                   mensaje_error 0 (token_actual ?s))]"
    by (simp only: na if_False)
  from traza_por_paso[of estado_sin_accion 0 "''error''"] c
  have "iteracion estado_sin_accion = Retorna estado_sin_accion" by blast
  with c iteracion_sin_accion show ?thesis by blast
qed

end
